theory Spec2Isabelle
  imports Complex_Main
begin

section \<open>Data model (state.ts)\<close>

text \<open>
  The records follow the Zod schemas of state.ts. Field names carry a short prefix
  because several schemas share the names \<open>id\<close>, \<open>url\<close>, \<open>title\<close> and
  \<open>content\<close>. A JavaScript string is a \<^typ>\<open>string\<close>, one \<^typ>\<open>char\<close> per
  code unit; optional fields are \<^typ>\<open>'a option\<close>; numbers that the program only
  counts with are \<^typ>\<open>int\<close> or \<^typ>\<open>nat\<close>, scores and distances are
  \<^typ>\<open>real\<close> (no NaN, no infinity, exact arithmetic).
\<close>

datatype Priority = High | Medium | Low

record SubQuery =
  sq_id :: string
  sq_query :: string
  sq_rationale :: string
  sq_priority :: Priority

record SearchResult =
  sr_url :: string
  sr_title :: string
  sr_snippet :: string
  sr_score :: "real option"
  sr_publishedDate :: "string option"

record ScrapedContent =
  sc_url :: string
  sc_title :: string
  sc_content :: string
  sc_scrapedAt :: string
  sc_wordCount :: nat
  sc_error :: "string option"

record ChunkMetadata =
  md_url :: string
  md_title :: string
  md_subQueryId :: string
  md_chunkIndex :: int

record RetrievedChunk =
  rc_content :: string
  rc_metadata :: ChunkMetadata
  rc_relevanceScore :: real

record Citation =
  cit_id :: nat
  cit_url :: string
  cit_title :: string
  cit_quote :: "string option"

record ReportSection =
  sec_title :: string
  sec_content :: string
  sec_citations :: "int list"

record ReportMetadata =
  totalSources :: nat
  subQueriesAnswered :: nat
  generatedAt :: string
  rm_iterationCount :: int

record ResearchReport =
  rep_title :: string
  executiveSummary :: string
  sections :: "ReportSection list"
  conclusions :: string
  rep_citations :: "Citation list"
  rep_metadata :: ReportMetadata

record HumanFeedback =
  approved :: bool
  feedback :: "string option"
  requestedChanges :: "string list option"
  timestamp :: string

datatype NodeStatus =
  Idle | Reasoning | Searching | Scraping | Storing | Retrieving
  | Synthesizing | Awaiting_human | Complete | Error

text \<open>
  The session state of \<open>ResearchStateAnnotation\<close>. The \<open>messages\<close> channel
  (LangGraph's own \<open>messagesStateReducer\<close>) is written by no node of the repository
  and is left out.
\<close>

record ResearchState =
  researchQuestion :: string
  subQueries :: "SubQuery list"
  searchResults :: "SearchResult list"
  scrapedContent :: "ScrapedContent list"
  storedChunkIds :: "string list"
  retrievedChunks :: "RetrievedChunk list"
  draftReport :: "ResearchReport option"
  humanFeedback :: "HumanFeedback option"
  currentNode :: NodeStatus
  iterationCount :: int
  errors :: "string list"
  finalReport :: "ResearchReport option"

text \<open>
  A node returns \<open>Partial<ResearchState>\<close>: every key may be absent. \<open>None\<close> is an
  absent key; \<open>Some None\<close> on a report is the key set to \<open>null\<close>.
\<close>

record StateUpdate =
  u_researchQuestion :: "string option"
  u_subQueries :: "SubQuery list option"
  u_searchResults :: "SearchResult list option"
  u_scrapedContent :: "ScrapedContent list option"
  u_storedChunkIds :: "string list option"
  u_retrievedChunks :: "RetrievedChunk list option"
  u_draftReport :: "ResearchReport option option"
  u_humanFeedback :: "HumanFeedback option option"
  u_currentNode :: "NodeStatus option"
  u_iterationCount :: "int option"
  u_errors :: "string list option"
  u_finalReport :: "ResearchReport option option"

definition emptyUpdate :: StateUpdate where
  "emptyUpdate = \<lparr> u_researchQuestion = None, u_subQueries = None,
     u_searchResults = None, u_scrapedContent = None, u_storedChunkIds = None,
     u_retrievedChunks = None, u_draftReport = None, u_humanFeedback = None,
     u_currentNode = None, u_iterationCount = None, u_errors = None,
     u_finalReport = None \<rparr>"

text \<open>The \<open>default\<close> of every channel.\<close>

definition initialState :: ResearchState where
  "initialState = \<lparr> researchQuestion = '''', subQueries = [], searchResults = [],
     scrapedContent = [], storedChunkIds = [], retrievedChunks = [],
     draftReport = None, humanFeedback = None, currentNode = Idle,
     iterationCount = 0, errors = [], finalReport = None \<rparr>"

section \<open>Reducers (state.ts, ResearchStateAnnotation)\<close>

text \<open>\<open>(_, next) => next\<close>\<close>

definition replaceReducer :: "'a \<Rightarrow> 'a \<Rightarrow> 'a" where
  "replaceReducer cur nxt = nxt"

text \<open>\<open>(curr, next) => [...curr, ...next]\<close>\<close>

definition appendReducer :: "'a list \<Rightarrow> 'a list \<Rightarrow> 'a list" where
  "appendReducer cur nxt = cur @ nxt"

text \<open>
  A JavaScript \<open>Set\<close> keeps its elements in insertion order and ignores the insertion of
  an element it holds; \<open>[...new Set(xs)]\<close> is therefore \<open>xs\<close> with every repeat after
  the first occurrence dropped.
\<close>

definition Set_add :: "'a list \<Rightarrow> 'a \<Rightarrow> 'a list" where
  "Set_add seen x = (if x \<in> set seen then seen else seen @ [x])"

definition new_Set :: "'a list \<Rightarrow> 'a list" where
  "new_Set xs = foldl Set_add [] xs"

text \<open>\<open>(curr, next) => [...new Set([...curr, ...next])]\<close>\<close>

definition dedupReducer :: "'a list \<Rightarrow> 'a list \<Rightarrow> 'a list" where
  "dedupReducer cur nxt = new_Set (cur @ nxt)"

definition reduceWith :: "('a \<Rightarrow> 'a \<Rightarrow> 'a) \<Rightarrow> 'a \<Rightarrow> 'a option \<Rightarrow> 'a" where
  "reduceWith r cur upd = (case upd of None \<Rightarrow> cur | Some nxt \<Rightarrow> r cur nxt)"

text \<open>
  The merge LangGraph performs with a node's return value: the reducer of a channel runs
  on each key the update holds, and a channel whose key is absent keeps its value.
\<close>

definition applyUpdate :: "ResearchState \<Rightarrow> StateUpdate \<Rightarrow> ResearchState" where
  "applyUpdate s u = \<lparr>
     researchQuestion = reduceWith replaceReducer (researchQuestion s) (u_researchQuestion u),
     subQueries = reduceWith replaceReducer (subQueries s) (u_subQueries u),
     searchResults = reduceWith appendReducer (searchResults s) (u_searchResults u),
     scrapedContent = reduceWith appendReducer (scrapedContent s) (u_scrapedContent u),
     storedChunkIds = reduceWith dedupReducer (storedChunkIds s) (u_storedChunkIds u),
     retrievedChunks = reduceWith replaceReducer (retrievedChunks s) (u_retrievedChunks u),
     draftReport = reduceWith replaceReducer (draftReport s) (u_draftReport u),
     humanFeedback = reduceWith replaceReducer (humanFeedback s) (u_humanFeedback u),
     currentNode = reduceWith replaceReducer (currentNode s) (u_currentNode u),
     iterationCount = reduceWith replaceReducer (iterationCount s) (u_iterationCount u),
     errors = reduceWith appendReducer (errors s) (u_errors u),
     finalReport = reduceWith replaceReducer (finalReport s) (u_finalReport u) \<rparr>"

section \<open>Routing after the human review (graph.ts)\<close>

datatype Route = To_reasoning | To_end

text \<open>
  \<open>routeAfterHumanReview\<close>. \<open>MAX_ITERATIONS\<close> is read from the environment
  (default 3) and is a parameter here.
\<close>

definition routeAfterHumanReview :: "int \<Rightarrow> ResearchState \<Rightarrow> Route" where
  "routeAfterHumanReview MAX_ITERATIONS state =
     (case humanFeedback state of
        None \<Rightarrow> To_end
      | Some fb \<Rightarrow>
          if approved fb then To_end
          else if iterationCount state \<ge> MAX_ITERATIONS then To_end
          else To_reasoning)"

section \<open>JavaScript strings and arrays\<close>

text \<open>
  The white space of \<open>String.prototype.trim\<close> and of the regular expression class
  \<open>\s\<close>, among the code units below 256: tab, line feed, vertical tab, form feed,
  carriage return, space and no-break space.
\<close>

definition isSpace :: "char \<Rightarrow> bool" where
  "isSpace c = ((of_char c :: nat) \<in> {9, 10, 11, 12, 13, 32, 160})"

definition trim :: "string \<Rightarrow> string" where
  "trim s = rev (dropWhile isSpace (rev (dropWhile isSpace s)))"

text \<open>
  \<open>toUpperCase\<close> on the letters a to z. Every other code unit is kept: the node
  compares the result with \<open>"Q"\<close>, \<open>"A"\<close> and \<open>"R"\<close> only, and no other
  character has one of these as its upper case.
\<close>

definition toUpperCase_char :: "char \<Rightarrow> char" where
  "toUpperCase_char c =
     (case map_of (zip ''abcdefghijklmnopqrstuvwxyz'' ''ABCDEFGHIJKLMNOPQRSTUVWXYZ'') c of
        Some C \<Rightarrow> C
      | None \<Rightarrow> c)"

definition toUpperCase :: "string \<Rightarrow> string" where
  "toUpperCase s = map toUpperCase_char s"

text \<open>
  \<open>Array.prototype.slice(start, end)\<close> with integer arguments: a negative index counts
  from the end, and both indices are clamped to the array.
\<close>

definition slice :: "'a list \<Rightarrow> int \<Rightarrow> int \<Rightarrow> 'a list" where
  "slice xs start fin =
     (let len = int (length xs);
          k = (if start < 0 then max (len + start) 0 else min start len);
          final = (if fin < 0 then max (len + fin) 0 else min fin len)
      in take (nat (final - k)) (drop (nat k) xs))"

text \<open>\<open>Array.prototype.join(sep)\<close>\<close>

fun join :: "string \<Rightarrow> string list \<Rightarrow> string" where
  "join sep [] = []"
| "join sep [w] = w"
| "join sep (w # v # ws) = w @ sep @ join sep (v # ws)"

text \<open>
  \<open>text.split(/\s+/)\<close>: the pieces between maximal runs of white space. White space at
  the start or at the end of the text leaves an empty first or last piece, and the empty
  text has the one piece \<open>""\<close>.
\<close>

definition startsWithSpace :: "string \<Rightarrow> bool" where
  "startsWithSpace cs = (case cs of [] \<Rightarrow> False | d # ds \<Rightarrow> isSpace d)"

fun split_ws :: "string \<Rightarrow> string list" where
  "split_ws [] = [[]]"
| "split_ws (c # cs) =
     (if isSpace c then
        (if startsWithSpace cs then split_ws cs else [] # split_ws cs)
      else (case split_ws cs of
              [] \<Rightarrow> [[c]]
            | w # ws \<Rightarrow> (c # w) # ws))"

section \<open>Human review (nodes/humanReview.ts)\<close>

text \<open>What a stage returns from its \<open>catch\<close> block.\<close>

definition errorUpdate :: "string \<Rightarrow> StateUpdate" where
  "errorUpdate message =
     emptyUpdate \<lparr> u_errors := Some [message], u_currentNode := Some Error \<rparr>"

datatype ReviewOutcome = Exit | Returned StateUpdate

text \<open>
  The terminal is the list of lines the reviewer types; \<open>getUserInput\<close> takes the next
  line and trims it. When the lines run out the pending question is never answered and
  the node does not return: \<open>None\<close>.

  The loop that collects change requests until an empty line, with the lines left over.
\<close>

fun read_changes :: "string list \<Rightarrow> (string list \<times> string list) option" where
  "read_changes [] = None"
| "read_changes (l # ls) =
     (if trim l = [] then Some ([], ls)
      else (case read_changes ls of
              None \<Rightarrow> None
            | Some (changes, rest) \<Rightarrow> Some (trim l # changes, rest)))"

text \<open>
  \<open>humanReviewNode\<close>; \<open>now\<close> is the clock's \<open>new Date().toISOString()\<close>. Choice Q
  leaves the process, an unknown choice asks again.
\<close>

fun humanReviewNode :: "string \<Rightarrow> ResearchState \<Rightarrow> string list \<Rightarrow> ReviewOutcome option" where
  "humanReviewNode now state [] =
     (case draftReport state of
        None \<Rightarrow> Some (Returned (errorUpdate ''No draft report available for review''))
      | Some draft \<Rightarrow> None)"
| "humanReviewNode now state (l # ls) =
     (case draftReport state of
        None \<Rightarrow> Some (Returned (errorUpdate ''No draft report available for review''))
      | Some draft \<Rightarrow>
          (let normalizedChoice = toUpperCase (trim l) in
           if normalizedChoice = ''Q'' then Some Exit
           else if normalizedChoice = ''A'' then
             Some (Returned (emptyUpdate \<lparr>
               u_humanFeedback := Some (Some \<lparr> approved = True,
                  feedback = Some ''Report approved'', requestedChanges = None,
                  timestamp = now \<rparr>),
               u_currentNode := Some Complete,
               u_finalReport := Some (Some draft) \<rparr>))
           else if normalizedChoice = ''R'' then
             (case ls of
                [] \<Rightarrow> None
              | f # rest \<Rightarrow>
                  (case read_changes rest of
                     None \<Rightarrow> None
                   | Some (changes, rest') \<Rightarrow>
                       Some (Returned (emptyUpdate \<lparr>
                         u_humanFeedback := Some (Some \<lparr> approved = False,
                            feedback = Some (if trim f = [] then ''Please improve the report''
                                             else trim f),
                            requestedChanges = Some changes,
                            timestamp = now \<rparr>),
                         u_currentNode := Some Reasoning,
                         u_retrievedChunks := Some [],
                         u_draftReport := Some None \<rparr>))))
           else humanReviewNode now state ls))"

section \<open>The driver's use of the review (index.ts, main)\<close>

text \<open>
  \<open>Object.assign(state, reviewResult)\<close>: every key of the update overwrites the
  state's, with no reducer.
\<close>

definition object_assign :: "ResearchState \<Rightarrow> StateUpdate \<Rightarrow> ResearchState" where
  "object_assign s u = \<lparr>
     researchQuestion = reduceWith replaceReducer (researchQuestion s) (u_researchQuestion u),
     subQueries = reduceWith replaceReducer (subQueries s) (u_subQueries u),
     searchResults = reduceWith replaceReducer (searchResults s) (u_searchResults u),
     scrapedContent = reduceWith replaceReducer (scrapedContent s) (u_scrapedContent u),
     storedChunkIds = reduceWith replaceReducer (storedChunkIds s) (u_storedChunkIds u),
     retrievedChunks = reduceWith replaceReducer (retrievedChunks s) (u_retrievedChunks u),
     draftReport = reduceWith replaceReducer (draftReport s) (u_draftReport u),
     humanFeedback = reduceWith replaceReducer (humanFeedback s) (u_humanFeedback u),
     currentNode = reduceWith replaceReducer (currentNode s) (u_currentNode u),
     iterationCount = reduceWith replaceReducer (iterationCount s) (u_iterationCount u),
     errors = reduceWith replaceReducer (errors s) (u_errors u),
     finalReport = reduceWith replaceReducer (finalReport s) (u_finalReport u) \<rparr>"

text \<open>\<open>state.finalReport ?? state.draftReport\<close>, the report \<open>main\<close> saves.\<close>

definition finalOutput :: "ResearchState \<Rightarrow> ResearchReport option" where
  "finalOutput state =
     (case finalReport state of Some r \<Rightarrow> Some r | None \<Rightarrow> draftReport state)"

section \<open>Example inputs\<close>

definition exampleReport :: ResearchReport where
  "exampleReport = \<lparr> rep_title = ''Report'', executiveSummary = ''Summary'',
     sections = [], conclusions = ''Done'', rep_citations = [],
     rep_metadata = \<lparr> totalSources = 1, subQueriesAnswered = 1,
       generatedAt = ''2024-01-01T00:00:00.000Z'', rm_iterationCount = 1 \<rparr> \<rparr>"

definition exampleMetadata :: ChunkMetadata where
  "exampleMetadata = \<lparr> md_url = ''https://a.example/1'', md_title = ''A'',
     md_subQueryId = ''sq-1'', md_chunkIndex = 0 \<rparr>"

definition exampleResult :: SearchResult where
  "exampleResult = \<lparr> sr_url = ''https://a.example/1'', sr_title = ''A'',
     sr_snippet = ''snippet'', sr_score = Some (9 / 10), sr_publishedDate = None \<rparr>"

definition examplePage :: ScrapedContent where
  "examplePage = \<lparr> sc_url = ''https://a.example/1'', sc_title = ''A'',
     sc_content = ''text'', sc_scrapedAt = ''2024-01-01T00:00:00.000Z'',
     sc_wordCount = 60, sc_error = None \<rparr>"

definition exampleChunk :: RetrievedChunk where
  "exampleChunk = \<lparr> rc_content = ''text'', rc_metadata = exampleMetadata,
     rc_relevanceScore = 1 / 2 \<rparr>"

text \<open>A session that reached the review in its \<open>n\<close>-th iteration, with a draft.\<close>

definition reviewState :: "int \<Rightarrow> ResearchState" where
  "reviewState n = initialState \<lparr> researchQuestion := ''X'',
     searchResults := [exampleResult], scrapedContent := [examplePage],
     retrievedChunks := [exampleChunk], draftReport := Some exampleReport,
     currentNode := Awaiting_human, iterationCount := n \<rparr>"

text \<open>The reviewer rejects, gives feedback and no change request.\<close>

definition rejectLines :: "string list" where
  "rejectLines = [''r'', ''add more detail on Y'', []]"

definition rejectFeedback :: HumanFeedback where
  "rejectFeedback = \<lparr> approved = False, feedback = Some ''add more detail on Y'',
     requestedChanges = Some [], timestamp = ''2024-01-02T00:00:00.000Z'' \<rparr>"

definition rejectUpdate :: StateUpdate where
  "rejectUpdate = emptyUpdate \<lparr> u_humanFeedback := Some (Some rejectFeedback),
     u_currentNode := Some Reasoning, u_retrievedChunks := Some [],
     u_draftReport := Some None \<rparr>"

section \<open>Citations (nodes/synthesis.ts)\<close>

text \<open>
  A JavaScript \<open>Map\<close> keeps its entries in insertion order: an association list with
  new keys added at the end. \<open>Array.from(m.values())\<close> is \<open>map snd m\<close>.
\<close>

definition Map_has :: "('k \<times> 'v) list \<Rightarrow> 'k \<Rightarrow> bool" where
  "Map_has m k = (k \<in> fst ` set m)"

text \<open>
  The body shared by the two loops of \<open>buildCitationMap\<close>, on the pair of
  \<open>urlToCitation\<close> and \<open>nextId\<close>.
\<close>

definition addCitation ::
  "(string \<times> Citation) list \<times> nat \<Rightarrow> string \<Rightarrow> string \<Rightarrow> (string \<times> Citation) list \<times> nat" where
  "addCitation acc url title =
     (case acc of (urlToCitation, nextId) \<Rightarrow>
        if Map_has urlToCitation url then acc
        else (urlToCitation @ [(url, \<lparr> cit_id = nextId, cit_url = url, cit_title = title,
                                      cit_quote = None \<rparr>)],
              nextId + 1))"

text \<open>
  \<open>buildCitationMap\<close>, its \<open>citations\<close>. The \<open>citationText\<close> it also returns is a
  rendering of the same list for the prompt.
\<close>

definition buildCitationMap :: "ResearchState \<Rightarrow> Citation list" where
  "buildCitationMap state =
     (let afterChunks =
            foldl (\<lambda>acc chunk. addCitation acc (md_url (rc_metadata chunk))
                                   (md_title (rc_metadata chunk)))
              ([], 1) (retrievedChunks state);
          afterResults =
            foldl (\<lambda>acc result. addCitation acc (sr_url result) (sr_title result))
              afterChunks (take 20 (searchResults state))
      in map snd (fst afterResults))"

text \<open>The invariant of the two loops: urls are the keys, ids count up from 1.\<close>

definition citeInv :: "(string \<times> Citation) list \<times> nat \<Rightarrow> bool" where
  "citeInv acc = (case acc of (m, n) \<Rightarrow>
      map (cit_url \<circ> snd) m = map fst m \<and> map (cit_id \<circ> snd) m = [1..<n] \<and> n = Suc (length m))"

section \<open>The vector store (tools/vectorTool.ts)\<close>

text \<open>
  What \<open>col.query\<close> answers: \<open>documents\<close> and \<open>distances\<close> hold one row per query
  embedding, either may be missing, and an entry may be null. The source reads
  \<open>results.metadatas?.[0]?.[i]\<close> and casts it to the metadata shape without a check;
  \<open>metadata_at i\<close> is that value.
\<close>

record QueryResults =
  documents :: "string option list list option"
  distances :: "real option list list option"
  metadata_at :: "nat \<Rightarrow> ChunkMetadata"

text \<open>
  The collection as the retrieval sees it: \<open>col.count()\<close>, and the embedding of the
  query followed by \<open>col.query\<close> with \<open>nResults\<close>. Each is a call to a service and
  may throw (\<open>Inl\<close> of the message).
\<close>

record VectorStore =
  vs_count :: "string + nat"
  vs_query :: "string \<Rightarrow> nat \<Rightarrow> string + QueryResults"

text \<open>\<open>rows?.[0]\<close>\<close>

definition first_row :: "'a list list option \<Rightarrow> 'a list option" where
  "first_row rows = (case rows of None \<Rightarrow> None | Some [] \<Rightarrow> None | Some (r # _) \<Rightarrow> Some r)"

text \<open>\<open>results.distances?.[0]?.[i] ?? 1\<close>\<close>

definition distance_at :: "QueryResults \<Rightarrow> nat \<Rightarrow> real" where
  "distance_at results i =
     (case first_row (distances results) of
        None \<Rightarrow> 1
      | Some row \<Rightarrow>
          if i < length row then (case row ! i of None \<Rightarrow> 1 | Some d \<Rightarrow> d) else 1)"

text \<open>The callback of \<open>.map((doc, i) => ...)\<close>.\<close>

definition toRetrievedChunk :: "QueryResults \<Rightarrow> nat \<times> string option \<Rightarrow> RetrievedChunk" where
  "toRetrievedChunk results p =
     (case p of (i, doc) \<Rightarrow>
        \<lparr> rc_content = (case doc of None \<Rightarrow> [] | Some d \<Rightarrow> d),
          rc_metadata = metadata_at results i,
          rc_relevanceScore = max 0 (1 - distance_at results i / 2) \<rparr>)"

text \<open>
  \<open>retrieveFromVectorDB\<close>. The first component lists the \<open>nResults\<close> of the queries
  sent to the store, the second is the returned list or the thrown message.
\<close>

definition retrieveFromVectorDB ::
  "VectorStore \<Rightarrow> string \<Rightarrow> nat \<Rightarrow> nat list \<times> (string + RetrievedChunk list)" where
  "retrieveFromVectorDB store query topK =
     (case vs_count store of
        Inl message \<Rightarrow> ([], Inl message)
      | Inr count \<Rightarrow>
          if count = 0 then ([], Inr [])
          else
            (case vs_query store query (min topK count) of
               Inl message \<Rightarrow> ([min topK count], Inl message)
             | Inr results \<Rightarrow>
                 (case first_row (documents results) of
                    None \<Rightarrow> ([min topK count], Inr [])
                  | Some docs \<Rightarrow>
                      ([min topK count],
                       Inr (filter (\<lambda>chunk. length (rc_content chunk) > 20)
                              (map (toRetrievedChunk results) (enumerate 0 docs)))))))"

section \<open>Retrieval (nodes/retrieval.ts)\<close>

definition TOP_K_PER_QUERY :: nat where
  "TOP_K_PER_QUERY = 5"

definition MAX_TOTAL_CHUNKS :: nat where
  "MAX_TOTAL_CHUNKS = 20"

text \<open>
  The retrieval queries: the question, the high-priority sub-queries, the first two
  medium-priority ones, and the feedback text when there is one and it is not empty.
\<close>

definition retrievalQueries :: "ResearchState \<Rightarrow> string list" where
  "retrievalQueries state =
     [researchQuestion state]
     @ map sq_query (filter (\<lambda>sq. sq_priority sq = High) (subQueries state))
     @ map sq_query (take 2 (filter (\<lambda>sq. sq_priority sq = Medium) (subQueries state)))
     @ (case humanFeedback state of
          None \<Rightarrow> []
        | Some fb \<Rightarrow> (case feedback fb of
                       None \<Rightarrow> []
                     | Some f \<Rightarrow> if f = [] then [] else [f]))"

text \<open>
  \<open>Promise.all\<close>: all the results in the order of the queries, or the message of a
  rejected call (the first in the order of the list).
\<close>

fun promise_all :: "(string + 'a) list \<Rightarrow> string + 'a list" where
  "promise_all [] = Inr []"
| "promise_all (Inl message # rs) = Inl message"
| "promise_all (Inr x # rs) =
     (case promise_all rs of Inl message \<Rightarrow> Inl message | Inr xs \<Rightarrow> Inr (x # xs))"

text \<open>The dedup key of a chunk: \<open>chunk.content.slice(0, 100).trim()\<close>.\<close>

definition dedupKey :: "RetrievedChunk \<Rightarrow> string" where
  "dedupKey chunk = trim (take 100 (rc_content chunk))"

text \<open>The body of the inner loop, on the pair of \<open>seen\<close> and \<open>dedupedChunks\<close>.\<close>

definition dedupStep ::
  "string list \<times> RetrievedChunk list \<Rightarrow> RetrievedChunk \<Rightarrow> string list \<times> RetrievedChunk list" where
  "dedupStep acc chunk =
     (case acc of (seen, dedupedChunks) \<Rightarrow>
        if dedupKey chunk \<notin> set seen \<and> length (rc_content chunk) > 50
        then (Set_add seen (dedupKey chunk), dedupedChunks @ [chunk])
        else acc)"

text \<open>
  Flatten, deduplicate, sort by descending score (the sort of JavaScript is stable, as
  \<open>sort_key\<close> is) and keep the first \<open>MAX_TOTAL_CHUNKS\<close>.
\<close>

definition topChunks :: "RetrievedChunk list list \<Rightarrow> RetrievedChunk list" where
  "topChunks allResults =
     take MAX_TOTAL_CHUNKS
       (sort_key (\<lambda>chunk. - rc_relevanceScore chunk)
          (snd (foldl dedupStep ([], []) (concat allResults))))"

text \<open>\<open>retrievalNode\<close>\<close>

definition retrievalNode :: "VectorStore \<Rightarrow> ResearchState \<Rightarrow> StateUpdate" where
  "retrievalNode store state =
     (case promise_all (map (\<lambda>q. snd (retrieveFromVectorDB store q TOP_K_PER_QUERY))
                          (retrievalQueries state)) of
        Inl message \<Rightarrow> errorUpdate message
      | Inr allResults \<Rightarrow>
          emptyUpdate \<lparr> u_retrievedChunks := Some (topChunks allResults),
                        u_currentNode := Some Synthesizing \<rparr>)"

text \<open>The invariant of the dedup loop: \<open>seen\<close> holds the keys of the chunks kept.\<close>

definition dedupInv :: "string list \<times> RetrievedChunk list \<Rightarrow> bool" where
  "dedupInv acc = (case acc of (seen, kept) \<Rightarrow>
      map dedupKey kept = seen \<and> distinct seen \<and> (\<forall>c \<in> set kept. length (rc_content c) > 50))"

text \<open>
  A store of four documents: two passages, a text too short to keep and a null document,
  at the distances 0.4, 0.2, unknown and 3.
\<close>

definition docA :: string where
  "docA = ''Quantum error correction improved markedly during the year 2024.''"

definition docB :: string where
  "docB = ''Superconducting qubits reached new coherence records in laboratories.''"

definition exampleQueryResults :: QueryResults where
  "exampleQueryResults = \<lparr>
     documents = Some [[Some docA, Some docB, Some ''too short'', None]],
     distances = Some [[Some (2 / 5), Some (1 / 5), None, Some 3]],
     metadata_at = (\<lambda>i. exampleMetadata) \<rparr>"

definition exampleStore :: VectorStore where
  "exampleStore = \<lparr> vs_count = Inr 4, vs_query = (\<lambda>q n. Inr exampleQueryResults) \<rparr>"

text \<open>An empty collection; a query to it would fail.\<close>

definition emptyStore :: VectorStore where
  "emptyStore = \<lparr> vs_count = Inr 0, vs_query = (\<lambda>q n. Inl ''no documents'') \<rparr>"

definition chunkA :: RetrievedChunk where
  "chunkA = \<lparr> rc_content = docA, rc_metadata = exampleMetadata, rc_relevanceScore = 4 / 5 \<rparr>"

definition chunkB :: RetrievedChunk where
  "chunkB = \<lparr> rc_content = docB, rc_metadata = exampleMetadata, rc_relevanceScore = 9 / 10 \<rparr>"

definition exampleSubQuery :: SubQuery where
  "exampleSubQuery = \<lparr> sq_id = ''sq-1'', sq_query = ''qubit coherence'',
     sq_rationale = ''hardware'', sq_priority = High \<rparr>"

text \<open>A session about to retrieve, with one stale chunk from the pass before.\<close>

definition retrievalState :: ResearchState where
  "retrievalState = initialState \<lparr> researchQuestion := ''X'',
     subQueries := [exampleSubQuery], retrievedChunks := [exampleChunk],
     currentNode := Retrieving, iterationCount := 1 \<rparr>"

section \<open>Chunking (tools/vectorTool.ts)\<close>

text \<open>
  The \<open>for\<close> loop of \<open>chunkText\<close>, with the loop variable \<open>i\<close> and the array
  \<open>chunks\<close> as arguments. With \<open>chunkSize - overlap\<close> not positive the loop of the
  source need not end; the result is then \<open>None\<close>.
\<close>

partial_function (option) chunk_loop ::
  "string list \<Rightarrow> int \<Rightarrow> int \<Rightarrow> int \<Rightarrow> string list \<Rightarrow> string list option" where
  "chunk_loop words chunkSize overlap i chunks =
     (if i < int (length words) then
        (if i + chunkSize \<ge> int (length words) then
           Some (if length (trim (join '' '' (slice words i (i + chunkSize)))) > 50
                 then chunks @ [join '' '' (slice words i (i + chunkSize))] else chunks)
         else
           chunk_loop words chunkSize overlap (i + (chunkSize - overlap))
             (if length (trim (join '' '' (slice words i (i + chunkSize)))) > 50
              then chunks @ [join '' '' (slice words i (i + chunkSize))] else chunks))
      else Some chunks)"

declare chunk_loop.simps [code]

text \<open>
  \<open>chunkText\<close>; \<open>CHUNK_SIZE\<close> and \<open>CHUNK_OVERLAP\<close> are its default arguments, read
  from the environment with the defaults 1000 and 200.
\<close>

definition chunkText :: "string \<Rightarrow> int \<Rightarrow> int \<Rightarrow> string list option" where
  "chunkText text chunkSize overlap = chunk_loop (split_ws text) chunkSize overlap 0 []"

definition CHUNK_SIZE :: int where
  "CHUNK_SIZE = 1000"

definition CHUNK_OVERLAP :: int where
  "CHUNK_OVERLAP = 200"

section \<open>External services\<close>

text \<open>
  The calls that leave the program, as functions of their arguments. A call that throws
  is \<open>Inl\<close> of the error's message.
  \<^item> \<open>decompose\<close>: the model call of \<open>reasoningNode\<close> with the parsing and validation
    of its answer;
  \<^item> \<open>executeSearch\<close>: the search API;
  \<^item> \<open>scrapeUrl\<close>: fetching and extracting one page. It catches every failure itself
    and reports it in the \<open>error\<close> field of the page it returns;
  \<^item> \<open>storeInVectorDB\<close>: chunking, embedding and storing a batch of pages;
  \<^item> \<open>vectorStore\<close>: the collection the retrieval queries;
  \<^item> \<open>synthesize\<close>: the model call of \<open>synthesisNode\<close> with the parsing and validation
    of its answer against the report schema;
  \<^item> \<open>clock\<close>: \<open>new Date().toISOString()\<close>.
\<close>

record Services =
  decompose :: "ResearchState \<Rightarrow> string + SubQuery list"
  executeSearch :: "string \<Rightarrow> nat \<Rightarrow> string + SearchResult list"
  scrapeUrl :: "string \<Rightarrow> ScrapedContent"
  storeInVectorDB :: "ScrapedContent list \<Rightarrow> string \<Rightarrow> string + string list"
  vectorStore :: VectorStore
  synthesize :: "ResearchState \<Rightarrow> string + ResearchReport"
  clock :: string

section \<open>Reasoning (nodes/reasoning.ts)\<close>

text \<open>
  \<open>reasoningNode\<close>. The sub-queries that pass the schema have a UUID as \<open>id\<close>, so
  \<open>sq.id || uuidv4()\<close> keeps the id.
\<close>

definition reasoningNode :: "Services \<Rightarrow> ResearchState \<Rightarrow> StateUpdate" where
  "reasoningNode sv state =
     (if trim (researchQuestion state) = []
      then errorUpdate ''Research question is required but was empty''
      else (case decompose sv state of
              Inl message \<Rightarrow> errorUpdate message
            | Inr parsed \<Rightarrow>
                emptyUpdate \<lparr> u_subQueries := Some parsed,
                              u_currentNode := Some Searching,
                              u_iterationCount := Some (iterationCount state + 1) \<rparr>))"

section \<open>Search (nodes/search.ts)\<close>

definition MAX_RESULTS_PER_QUERY :: nat where
  "MAX_RESULTS_PER_QUERY = 5"

text \<open>\<open>{ high: 0, medium: 1, low: 2 }\<close>\<close>

fun priorityOrder :: "Priority \<Rightarrow> nat" where
  "priorityOrder High = 0"
| "priorityOrder Medium = 1"
| "priorityOrder Low = 2"

text \<open>
  The body of the loop over the prioritized sub-queries, on the pair of
  \<open>existingUrls\<close> and \<open>allNewResults\<close>. The inner \<open>catch\<close> writes a warning to the
  console and nothing else.
\<close>

definition searchStep ::
  "Services \<Rightarrow> string list \<times> SearchResult list \<Rightarrow> SubQuery
     \<Rightarrow> string list \<times> SearchResult list" where
  "searchStep sv acc subQuery =
     (case acc of (existingUrls, allNewResults) \<Rightarrow>
        (case executeSearch sv (sq_query subQuery) MAX_RESULTS_PER_QUERY of
           Inl message \<Rightarrow> acc
         | Inr results \<Rightarrow>
             (foldl Set_add existingUrls
                (map sr_url (filter (\<lambda>r. sr_url r \<notin> set existingUrls) results)),
              allNewResults @ filter (\<lambda>r. sr_url r \<notin> set existingUrls) results)))"

text \<open>\<open>searchNode\<close>; the sort of the sub-queries by priority is stable.\<close>

definition searchNode :: "Services \<Rightarrow> ResearchState \<Rightarrow> StateUpdate" where
  "searchNode sv state =
     (if subQueries state = [] then errorUpdate ''No sub-queries available for search''
      else emptyUpdate \<lparr>
        u_searchResults := Some (snd (foldl (searchStep sv)
           (new_Set (map sr_url (searchResults state)), [])
           (sort_key (\<lambda>sq. priorityOrder (sq_priority sq)) (subQueries state)))),
        u_currentNode := Some Scraping \<rparr>)"

section \<open>Scraping (tools/scraperTool.ts, nodes/scraper.ts)\<close>

text \<open>\<open>!r.error && r.wordCount > 50\<close>; the empty string is falsy.\<close>

definition scrapeOk :: "ScrapedContent \<Rightarrow> bool" where
  "scrapeOk r = ((case sc_error r of None \<Rightarrow> True | Some e \<Rightarrow> e = []) \<and> sc_wordCount r > 50)"

text \<open>
  The batch loop of \<open>scrapeUrls\<close>, with the loop variable \<open>i\<close> and the array
  \<open>results\<close> as arguments; the pages of a batch come back in the order of its urls.
  With a \<open>concurrency\<close> that is not positive the loop does not end: \<open>None\<close>.
\<close>

partial_function (option) scrape_loop ::
  "Services \<Rightarrow> string list \<Rightarrow> int \<Rightarrow> int \<Rightarrow> ScrapedContent list
     \<Rightarrow> ScrapedContent list option" where
  "scrape_loop sv urls concurrency i results =
     (if i < int (length urls)
      then scrape_loop sv urls concurrency (i + concurrency)
             (results @ map (scrapeUrl sv) (slice urls i (i + concurrency)))
      else Some results)"

declare scrape_loop.simps [code]

definition scrapeUrls :: "Services \<Rightarrow> string list \<Rightarrow> int \<Rightarrow> ScrapedContent list option" where
  "scrapeUrls sv urls concurrency =
     map_option (filter scrapeOk) (scrape_loop sv urls concurrency 0 [])"

definition MAX_URLS_TO_SCRAPE :: nat where
  "MAX_URLS_TO_SCRAPE = 15"

definition CONCURRENCY :: int where
  "CONCURRENCY = 3"

text \<open>\<open>r.score ?? 0\<close>\<close>

definition scoreOf :: "SearchResult \<Rightarrow> real" where
  "scoreOf r = (case sr_score r of None \<Rightarrow> 0 | Some x \<Rightarrow> x)"

definition urlsToScrape :: "ResearchState \<Rightarrow> string list" where
  "urlsToScrape state =
     map sr_url
       (take MAX_URLS_TO_SCRAPE
          (filter (\<lambda>r. sr_url r \<notin> set (new_Set (map sc_url (scrapedContent state))))
             (sort_key (\<lambda>r. - scoreOf r) (searchResults state))))"

text \<open>\<open>scraperNode\<close>; \<open>None\<close> when \<open>scrapeUrls\<close> does not return.\<close>

definition scraperNode :: "Services \<Rightarrow> ResearchState \<Rightarrow> StateUpdate option" where
  "scraperNode sv state =
     (if searchResults state = [] then Some (errorUpdate ''No search results to scrape'')
      else if urlsToScrape state = [] then Some (emptyUpdate \<lparr> u_currentNode := Some Storing \<rparr>)
      else (case scrapeUrls sv (urlsToScrape state) CONCURRENCY of
              None \<Rightarrow> None
            | Some newContent \<Rightarrow>
                Some (emptyUpdate \<lparr> u_scrapedContent := Some (filter scrapeOk newContent),
                                    u_currentNode := Some Storing \<rparr>)))"

section \<open>Storing (nodes/vectorStore.ts)\<close>

text \<open>
  The batch loop of \<open>vectorStoreNode\<close> over the batch numbers \<open>k = i / batchSize\<close>,
  with the value of \<open>state.storedChunkIds\<close> as accumulator: the first batch replaces
  it, the later ones append. A batch with no sub-query id to attribute it to throws a
  \<open>TypeError\<close> on \<open>subQueryId.slice\<close>.
\<close>

fun store_loop ::
  "Services \<Rightarrow> ScrapedContent list \<Rightarrow> string list \<Rightarrow> nat \<Rightarrow> nat list \<Rightarrow> string list
     \<Rightarrow> string + string list" where
  "store_loop sv content subQueryIds batchSize [] ids = Inr ids"
| "store_loop sv content subQueryIds batchSize (k # ks) ids =
     (case (if k < length subQueryIds then Some (subQueryIds ! k)
            else (case subQueryIds of [] \<Rightarrow> None | first # _ \<Rightarrow> Some first)) of
        None \<Rightarrow> Inl ''Cannot read properties of undefined (reading 'slice')''
      | Some subQueryId \<Rightarrow>
          (case storeInVectorDB sv (take batchSize (drop (k * batchSize) content)) subQueryId of
             Inl message \<Rightarrow> Inl message
           | Inr chunkIds \<Rightarrow>
               store_loop sv content subQueryIds batchSize ks
                 (if k = 0 then chunkIds else ids @ chunkIds)))"

text \<open>
  \<open>vectorStoreNode\<close>. \<open>batchSize\<close> is \<open>ceil(n / max(m, 1))\<close> for \<open>n\<close> pages and
  \<open>m\<close> sub-queries, at least 1 when there is a page, and the loop runs for the batch
  numbers below \<open>ceil(n / batchSize)\<close>. Its \<open>catch\<close> keeps the pipeline going.
\<close>

definition vectorStoreNode :: "Services \<Rightarrow> ResearchState \<Rightarrow> StateUpdate" where
  "vectorStoreNode sv state =
     (if scrapedContent state = [] then emptyUpdate \<lparr> u_currentNode := Some Retrieving \<rparr>
      else
        (let n = length (scrapedContent state);
             m = max (length (subQueries state)) 1;
             batchSize = (n + m - 1) div m
         in case store_loop sv (scrapedContent state) (map sq_id (subQueries state)) batchSize
                   [0 ..< (n + batchSize - 1) div batchSize] (storedChunkIds state) of
              Inl message \<Rightarrow>
                emptyUpdate \<lparr> u_errors := Some [message], u_currentNode := Some Retrieving \<rparr>
            | Inr ids \<Rightarrow>
                emptyUpdate \<lparr> u_storedChunkIds := Some ids,
                              u_currentNode := Some Retrieving \<rparr>))"

section \<open>Synthesis (nodes/synthesis.ts)\<close>

text \<open>
  \<open>synthesisNode\<close>: the metadata and the citations of the parsed report are overwritten
  with the values computed here.
\<close>

definition synthesisNode :: "Services \<Rightarrow> ResearchState \<Rightarrow> StateUpdate" where
  "synthesisNode sv state =
     (if retrievedChunks state = []
      then errorUpdate ''No retrieved chunks available for synthesis''
      else (case synthesize sv state of
              Inl message \<Rightarrow> errorUpdate message
            | Inr report \<Rightarrow>
                emptyUpdate \<lparr>
                  u_draftReport := Some (Some (report \<lparr>
                    rep_metadata := \<lparr> totalSources = length (buildCitationMap state),
                                      subQueriesAnswered = length (subQueries state),
                                      generatedAt = clock sv,
                                      rm_iterationCount = iterationCount state \<rparr>,
                    rep_citations := buildCitationMap state \<rparr>)),
                  u_currentNode := Some Awaiting_human \<rparr>))"

section \<open>The graph (graph.ts, buildResearchGraph)\<close>

datatype GraphNode =
  N_reasoning | N_search | N_scraper | N_vector_store | N_retrieval | N_synthesis
  | N_human_review

datatype Target = Node GraphNode | END

text \<open>
  The edges added by \<open>addEdge\<close> and \<open>addConditionalEdges\<close>: the edge out of a node
  given the state after the node's update. \<open>routeAfterError\<close> is defined in graph.ts
  and attached to no node.
\<close>

fun graphEdge :: "int \<Rightarrow> GraphNode \<Rightarrow> ResearchState \<Rightarrow> Target" where
  "graphEdge MAX_ITERATIONS N_reasoning state = Node N_search"
| "graphEdge MAX_ITERATIONS N_search state = Node N_scraper"
| "graphEdge MAX_ITERATIONS N_scraper state = Node N_vector_store"
| "graphEdge MAX_ITERATIONS N_vector_store state = Node N_retrieval"
| "graphEdge MAX_ITERATIONS N_retrieval state = Node N_synthesis"
| "graphEdge MAX_ITERATIONS N_synthesis state = Node N_human_review"
| "graphEdge MAX_ITERATIONS N_human_review state =
     (case routeAfterHumanReview MAX_ITERATIONS state of
        To_reasoning \<Rightarrow> Node N_reasoning
      | To_end \<Rightarrow> END)"

text \<open>
  The node functions registered with \<open>addNode\<close>. The human review reads the terminal and
  is run by the driver, not here: the graph is compiled with
  \<open>interruptBefore: ["human_review"]\<close>.
\<close>

fun runNode :: "Services \<Rightarrow> GraphNode \<Rightarrow> ResearchState \<Rightarrow> StateUpdate option" where
  "runNode sv N_reasoning state = Some (reasoningNode sv state)"
| "runNode sv N_search state = Some (searchNode sv state)"
| "runNode sv N_scraper state = scraperNode sv state"
| "runNode sv N_vector_store state = Some (vectorStoreNode sv state)"
| "runNode sv N_retrieval state = Some (retrievalNode (vectorStore sv) state)"
| "runNode sv N_synthesis state = Some (synthesisNode sv state)"
| "runNode sv N_human_review state = None"

text \<open>
  Running the graph from a node until the interrupt before the human review or until
  \<open>END\<close>: run the node, merge its update, follow the edge. The first argument bounds the
  number of nodes run; \<open>None\<close> when it is used up or a node does not return.
\<close>

fun runGraph ::
  "nat \<Rightarrow> Services \<Rightarrow> int \<Rightarrow> GraphNode \<Rightarrow> ResearchState \<Rightarrow> (Target \<times> ResearchState) option" where
  "runGraph 0 sv MAX_ITERATIONS node state = None"
| "runGraph (Suc fuel) sv MAX_ITERATIONS node state =
     (if node = N_human_review then Some (Node N_human_review, state)
      else (case runNode sv node state of
              None \<Rightarrow> None
            | Some update \<Rightarrow>
                (case graphEdge MAX_ITERATIONS node (applyUpdate state update) of
                   END \<Rightarrow> Some (END, applyUpdate state update)
                 | Node next_node \<Rightarrow>
                     runGraph fuel sv MAX_ITERATIONS next_node (applyUpdate state update))))"

section \<open>Example services\<close>

definition failedPage :: "string \<Rightarrow> ScrapedContent" where
  "failedPage url = \<lparr> sc_url = url, sc_title = ''Scrape Error'', sc_content = [],
     sc_scrapedAt = ''2024-01-01T00:00:00.000Z'', sc_wordCount = 0,
     sc_error = Some ''fetch failed'' \<rparr>"

definition otherResult :: SearchResult where
  "otherResult = \<lparr> sr_url = ''https://b.example/2'', sr_title = ''B'',
     sr_snippet = ''snippet'', sr_score = Some (1 / 2), sr_publishedDate = None \<rparr>"

definition badSubQuery :: SubQuery where
  "badSubQuery = \<lparr> sq_id = ''sq-2'', sq_query = ''bad'', sq_rationale = ''none'',
     sq_priority = High \<rparr>"

text \<open>
  Services of which the search fails on the query \<open>bad\<close> and the scrape fails on every
  url but one; the decomposition finds no sub-query.
\<close>

definition exampleServices :: Services where
  "exampleServices = \<lparr>
     decompose = (\<lambda>state. Inr []),
     executeSearch = (\<lambda>query n. if query = ''bad'' then Inl ''Tavily API error 500: down''
                                 else Inr [exampleResult]),
     scrapeUrl = (\<lambda>url. if url = ''https://a.example/1'' then examplePage else failedPage url),
     storeInVectorDB = (\<lambda>pages subQueryId. Inr []),
     vectorStore = exampleStore,
     synthesize = (\<lambda>state. Inr exampleReport),
     clock = ''2024-01-03T00:00:00.000Z'' \<rparr>"

text \<open>A session whose decomposition returned no sub-query, about to search.\<close>

definition searchState :: ResearchState where
  "searchState = initialState \<lparr> researchQuestion := ''X'', currentNode := Searching,
     iterationCount := 1 \<rparr>"

text \<open>A session with a failing and a working sub-query, about to search.\<close>

definition mixedSearchState :: ResearchState where
  "mixedSearchState = initialState \<lparr> researchQuestion := ''X'',
     subQueries := [badSubQuery, exampleSubQuery], currentNode := Searching,
     iterationCount := 1 \<rparr>"

text \<open>A session with two search results, about to scrape.\<close>

definition scrapeState :: ResearchState where
  "scrapeState = initialState \<lparr> researchQuestion := ''X'',
     subQueries := [badSubQuery, exampleSubQuery],
     searchResults := [otherResult, exampleResult], currentNode := Scraping,
     iterationCount := 1 \<rparr>"

text \<open>Whether the search call of a sub-query returns.\<close>

definition searchSucceeds :: "Services \<Rightarrow> SubQuery \<Rightarrow> bool" where
  "searchSucceeds sv subQuery =
     (case executeSearch sv (sq_query subQuery) MAX_RESULTS_PER_QUERY of
        Inl message \<Rightarrow> False
      | Inr results \<Rightarrow> True)"

section \<open>Re-entering the graph after a rejection (index.ts, main)\<close>

text \<open>
  The object \<open>main\<close> passes to \<open>app.invoke(state, config)\<close> is the whole state, so
  every key is present in the input.
\<close>

definition inputOf :: "ResearchState \<Rightarrow> StateUpdate" where
  "inputOf state = \<lparr>
     u_researchQuestion = Some (researchQuestion state),
     u_subQueries = Some (subQueries state),
     u_searchResults = Some (searchResults state),
     u_scrapedContent = Some (scrapedContent state),
     u_storedChunkIds = Some (storedChunkIds state),
     u_retrievedChunks = Some (retrievedChunks state),
     u_draftReport = Some (draftReport state),
     u_humanFeedback = Some (humanFeedback state),
     u_currentNode = Some (currentNode state),
     u_iterationCount = Some (iterationCount state),
     u_errors = Some (errors state),
     u_finalReport = Some (finalReport state) \<rparr>"

text \<open>
  \<open>app.invoke(input, config)\<close> on a thread that has a checkpoint: LangGraph writes each
  key of the input to its channel through the channel's reducer, on top of the value the
  checkpoint holds, and starts again at \<open>START\<close>, whose edge leads to the reasoning
  stage. \<open>invokeEntry\<close> is the state in which the reasoning stage is entered.
\<close>

definition invokeEntry :: "ResearchState \<Rightarrow> ResearchState \<Rightarrow> ResearchState" where
  "invokeEntry checkpoint input = applyUpdate checkpoint (inputOf input)"

definition appInvoke ::
  "nat \<Rightarrow> Services \<Rightarrow> int \<Rightarrow> ResearchState \<Rightarrow> ResearchState
     \<Rightarrow> (Target \<times> ResearchState) option" where
  "appInvoke fuel sv MAX_ITERATIONS checkpoint input =
     runGraph fuel sv MAX_ITERATIONS N_reasoning (invokeEntry checkpoint input)"

text \<open>
  One turn of the review loop of \<open>main\<close> on the state the interrupted graph returned,
  which is also what the checkpoint holds: run the review, merge its result with
  \<open>Object.assign\<close>, stop on an approval, and on \<open>currentNode = "reasoning"\<close> hand the
  merged state to \<open>app.invoke\<close>. The result is the state in which the graph is
  re-entered, if it is.
\<close>

datatype ReviewTurn = Process_exit | Loop_ends ResearchState
  | Reenters ResearchState | Loops_again ResearchState

definition reviewTurn :: "string \<Rightarrow> ResearchState \<Rightarrow> string list \<Rightarrow> ReviewTurn option" where
  "reviewTurn now state ls =
     (case humanReviewNode now state ls of
        None \<Rightarrow> None
      | Some Exit \<Rightarrow> Some Process_exit
      | Some (Returned reviewResult) \<Rightarrow>
          (let merged = object_assign state reviewResult in
           if (case humanFeedback merged of None \<Rightarrow> False | Some fb \<Rightarrow> approved fb)
              \<or> currentNode merged = Complete
           then Some (Loop_ends merged)
           else if currentNode merged = Reasoning
           then Some (Reenters (invokeEntry state merged))
           else Some (Loops_again merged)))"

section \<open>The pages that are chunked (tools/scraperTool.ts, tools/vectorTool.ts)\<close>

text \<open>
  The word count \<open>scrapeUrl\<close> stores with a page:
  \<open>content.split(/\s+/).filter(Boolean).length\<close>.
\<close>

definition wordCountOf :: "string \<Rightarrow> nat" where
  "wordCountOf content = length (filter (\<lambda>w. w \<noteq> []) (split_ws content))"

text \<open>
  \<open>chunkText\<close> is called by \<open>storeInVectorDB\<close> only, on the content of the pages that
  pass its guard \<open>if (!page.content || page.wordCount < 50) continue\<close>.
\<close>

definition pageIsChunked :: "ScrapedContent \<Rightarrow> bool" where
  "pageIsChunked page = (\<not> (sc_content page = [] \<or> sc_wordCount page < 50))"

text \<open>
  A scraped page of \<open>n + 1\<close> words separated by single spaces, with the word count
  \<open>scrapeUrl\<close> gives it.
\<close>

definition pageText :: "nat \<Rightarrow> string" where
  "pageText n = ''ab'' @ concat (replicate n '' ab'')"

definition pageOfWords :: "nat \<Rightarrow> ScrapedContent" where
  "pageOfWords n = \<lparr> sc_url = ''https://a.example/1'', sc_title = ''A'',
     sc_content = pageText n, sc_scrapedAt = ''2024-01-01T00:00:00.000Z'',
     sc_wordCount = Suc n, sc_error = None \<rparr>"

section \<open>Routing: the termination condition\<close>


section \<open>The merge policy of the state\<close>

lemma set_foldl_Set_add: "set (foldl Set_add acc xs) = set acc \<union> set xs"
  by (induction xs arbitrary: acc) (auto simp: Set_add_def)

lemma distinct_foldl_Set_add: "distinct acc \<Longrightarrow> distinct (foldl Set_add acc xs)"
  by (induction xs arbitrary: acc) (auto simp: Set_add_def)

lemma distinct_new_Set: "distinct (new_Set xs)"
  by (simp add: new_Set_def distinct_foldl_Set_add)

lemma set_new_Set: "set (new_Set xs) = set xs"
  by (simp add: new_Set_def set_foldl_Set_add)

lemma distinct_storedChunkIds_step:
  "distinct (storedChunkIds s) \<Longrightarrow> distinct (storedChunkIds (applyUpdate s u))"
  by (simp add: applyUpdate_def reduceWith_def dedupReducer_def distinct_new_Set
      split: option.split)

lemma distinct_storedChunkIds_run:
  "distinct (storedChunkIds s) \<Longrightarrow> distinct (storedChunkIds (foldl applyUpdate s us))"
  by (induction us arbitrary: s) (simp_all add: distinct_storedChunkIds_step)

text \<open>
  C4 as stated fails on the error log: its reducer is the plain append, so the same
  message logged by two updates stands twice in \<open>errors\<close>.
\<close>

theorem errors_not_deduplicated:
  "\<not> distinct (errors (foldl applyUpdate initialState
        [errorUpdate ''No sub-queries available for search'',
         errorUpdate ''No sub-queries available for search'']))"
  by (simp add: applyUpdate_def reduceWith_def appendReducer_def replaceReducer_def
      errorUpdate_def emptyUpdate_def initialState_def)

text \<open>
  C4, amended. Whatever stage produced the update, the merge replaces the current-stage
  marker, the sub-query list, the retrieved chunks, the draft and final report, the human
  feedback and the iteration counter by the new value when the update holds one; it appends
  to the search results, to the scraped pages and to the error log; and it merges the
  stored-chunk identifiers as a set kept in insertion order. After any sequence of updates
  from the initial state no stored-chunk identifier appears twice.
\<close>

theorem merge_policy:
  "currentNode (applyUpdate s u) = (case u_currentNode u of None \<Rightarrow> currentNode s | Some v \<Rightarrow> v)
   \<and> subQueries (applyUpdate s u) = (case u_subQueries u of None \<Rightarrow> subQueries s | Some v \<Rightarrow> v)
   \<and> retrievedChunks (applyUpdate s u) =
        (case u_retrievedChunks u of None \<Rightarrow> retrievedChunks s | Some v \<Rightarrow> v)
   \<and> draftReport (applyUpdate s u) = (case u_draftReport u of None \<Rightarrow> draftReport s | Some v \<Rightarrow> v)
   \<and> finalReport (applyUpdate s u) = (case u_finalReport u of None \<Rightarrow> finalReport s | Some v \<Rightarrow> v)
   \<and> humanFeedback (applyUpdate s u) =
        (case u_humanFeedback u of None \<Rightarrow> humanFeedback s | Some v \<Rightarrow> v)
   \<and> iterationCount (applyUpdate s u) =
        (case u_iterationCount u of None \<Rightarrow> iterationCount s | Some v \<Rightarrow> v)
   \<and> searchResults (applyUpdate s u) =
        searchResults s @ (case u_searchResults u of None \<Rightarrow> [] | Some v \<Rightarrow> v)
   \<and> scrapedContent (applyUpdate s u) =
        scrapedContent s @ (case u_scrapedContent u of None \<Rightarrow> [] | Some v \<Rightarrow> v)
   \<and> errors (applyUpdate s u) = errors s @ (case u_errors u of None \<Rightarrow> [] | Some v \<Rightarrow> v)
   \<and> set (storedChunkIds (applyUpdate s u)) =
        set (storedChunkIds s) \<union> (case u_storedChunkIds u of None \<Rightarrow> {} | Some v \<Rightarrow> set v)
   \<and> distinct (storedChunkIds (foldl applyUpdate initialState us))"
proof -
  have "distinct (storedChunkIds initialState)"
    by (simp add: initialState_def)
  then have run: "distinct (storedChunkIds (foldl applyUpdate initialState us))"
    by (rule distinct_storedChunkIds_run)
  have ids: "set (storedChunkIds (applyUpdate s u)) =
        set (storedChunkIds s) \<union> (case u_storedChunkIds u of None \<Rightarrow> {} | Some v \<Rightarrow> set v)"
    by (simp add: applyUpdate_def reduceWith_def dedupReducer_def set_new_Set
        split: option.split)
  show ?thesis
    using run ids
    by (simp add: applyUpdate_def reduceWith_def appendReducer_def replaceReducer_def
        split: option.split)
qed

section \<open>The revision loop\<close>

lemma read_changes_rest:
  "humanReviewNode now state ls = Some (Returned u) \<Longrightarrow>
   u_humanFeedback u = Some (Some fb) \<Longrightarrow> \<not> approved fb \<Longrightarrow>
   u_retrievedChunks u = Some [] \<and> u_draftReport u = Some None
   \<and> u_searchResults u = None \<and> u_scrapedContent u = None \<and> u_iterationCount u = None"
proof (induction now state ls rule: humanReviewNode.induct)
  case (1 now state)
  then show ?case
    by (auto simp: errorUpdate_def emptyUpdate_def split: option.splits)
next
  case (2 now state l ls)
  then show ?case
    by (auto simp: errorUpdate_def emptyUpdate_def Let_def
        split: option.splits if_splits list.splits prod.splits)
qed

text \<open>
  The merge of a rejection's update, before the graph is entered again. When the review
  returns a rejection (feedback with \<open>approved = false\<close>) and the iteration count is
  below the maximum, the router would send the session back to the reasoning stage, and
  the merged state has \<open>retrievedChunks\<close> empty and \<open>draftReport\<close> null, while
  \<open>searchResults\<close> and \<open>scrapedContent\<close> are what they were, under the reducers
  as under the driver's \<open>Object.assign\<close>.
\<close>

lemma rejection_clears_chunks_and_draft:
  assumes "humanReviewNode now state ls = Some (Returned u)"
    and "u_humanFeedback u = Some (Some fb)"
    and "\<not> approved fb"
    and "iterationCount state < MAX_ITERATIONS"
  shows "routeAfterHumanReview MAX_ITERATIONS (applyUpdate state u) = To_reasoning
    \<and> retrievedChunks (applyUpdate state u) = []
    \<and> draftReport (applyUpdate state u) = None
    \<and> searchResults (applyUpdate state u) = searchResults state
    \<and> scrapedContent (applyUpdate state u) = scrapedContent state
    \<and> retrievedChunks (object_assign state u) = []
    \<and> draftReport (object_assign state u) = None
    \<and> searchResults (object_assign state u) = searchResults state
    \<and> scrapedContent (object_assign state u) = scrapedContent state"
proof -
  from read_changes_rest [OF assms(1) assms(2) assms(3)]
  have u: "u_retrievedChunks u = Some []" "u_draftReport u = Some None"
    "u_searchResults u = None" "u_scrapedContent u = None" "u_iterationCount u = None"
    by simp_all
  show ?thesis
    using u assms(2) assms(3) assms(4)
    by (simp add: applyUpdate_def object_assign_def reduceWith_def replaceReducer_def
        routeAfterHumanReview_def)
qed

lemma review_of_rejectLines:
  "humanReviewNode ''2024-01-02T00:00:00.000Z'' (reviewState n) rejectLines
     = Some (Returned rejectUpdate)"
  by (simp add: reviewState_def initialState_def rejectLines_def rejectUpdate_def
      rejectFeedback_def toUpperCase_def toUpperCase_char_def trim_def isSpace_def)

lemma rejection_clears_chunks_and_draft_example:
  "humanReviewNode ''2024-01-02T00:00:00.000Z'' (reviewState 1) rejectLines
     = Some (Returned rejectUpdate)
   \<and> u_humanFeedback rejectUpdate = Some (Some rejectFeedback)
   \<and> \<not> approved rejectFeedback
   \<and> iterationCount (reviewState 1) < 3
   \<and> routeAfterHumanReview 3 (applyUpdate (reviewState 1) rejectUpdate) = To_reasoning
   \<and> retrievedChunks (reviewState 1) = [exampleChunk]
   \<and> retrievedChunks (applyUpdate (reviewState 1) rejectUpdate) = []
   \<and> draftReport (applyUpdate (reviewState 1) rejectUpdate) = None
   \<and> searchResults (applyUpdate (reviewState 1) rejectUpdate) = [exampleResult]
   \<and> scrapedContent (applyUpdate (reviewState 1) rejectUpdate) = [examplePage]"
proof -
  have h1: "humanReviewNode ''2024-01-02T00:00:00.000Z'' (reviewState 1) rejectLines
     = Some (Returned rejectUpdate)"
    by (rule review_of_rejectLines)
  have h2: "u_humanFeedback rejectUpdate = Some (Some rejectFeedback)"
    by (simp add: rejectUpdate_def)
  have h3: "\<not> approved rejectFeedback"
    by (simp add: rejectFeedback_def)
  have h4: "iterationCount (reviewState 1) < 3"
    by (simp add: reviewState_def)
  have s: "searchResults (reviewState 1) = [exampleResult]"
    "scrapedContent (reviewState 1) = [examplePage]"
    "retrievedChunks (reviewState 1) = [exampleChunk]"
    by (simp_all add: reviewState_def)
  show ?thesis
    using rejection_clears_chunks_and_draft [OF h1 h2 h3 h4] h1 h2 h3 h4 s
    by simp
qed

section \<open>Rejection at the iteration limit\<close>

text \<open>
  C2 at a concrete input: the third iteration's draft is rejected with the maximum at 3.
  The router ends the session, but the review's update has already set the draft to null
  and no path sets the final report, so the session ends without any report: the
  \<open>finalReport ?? draftReport\<close> of the driver is null.
\<close>

theorem rejection_at_limit_loses_draft:
  "draftReport (reviewState 3) = Some exampleReport
   \<and> humanReviewNode ''2024-01-02T00:00:00.000Z'' (reviewState 3) rejectLines
       = Some (Returned rejectUpdate)
   \<and> routeAfterHumanReview 3 (applyUpdate (reviewState 3) rejectUpdate) = To_end
   \<and> finalReport (applyUpdate (reviewState 3) rejectUpdate) = None
   \<and> draftReport (applyUpdate (reviewState 3) rejectUpdate) = None
   \<and> finalOutput (applyUpdate (reviewState 3) rejectUpdate) = None
   \<and> finalOutput (object_assign (reviewState 3) rejectUpdate) = None"
  by (simp add: review_of_rejectLines)
    (simp add: reviewState_def initialState_def rejectUpdate_def rejectFeedback_def
      emptyUpdate_def applyUpdate_def object_assign_def reduceWith_def replaceReducer_def
      appendReducer_def dedupReducer_def new_Set_def routeAfterHumanReview_def
      finalOutput_def)

section \<open>Citation ids\<close>

lemma addCitation_inv:
  "citeInv acc \<Longrightarrow> citeInv (addCitation acc url title)"
  by (cases acc) (auto simp: citeInv_def addCitation_def)

lemma addCitation_keys:
  "map fst (fst (addCitation acc url title)) = Set_add (map fst (fst acc)) url"
  by (cases acc) (auto simp: addCitation_def Set_add_def Map_has_def)

lemma foldl_addCitation:
  "citeInv acc \<Longrightarrow>
   citeInv (foldl (\<lambda>a x. addCitation a (f x) (g x)) acc xs)
   \<and> map fst (fst (foldl (\<lambda>a x. addCitation a (f x) (g x)) acc xs))
       = foldl Set_add (map fst (fst acc)) (map f xs)"
  by (induction xs arbitrary: acc) (simp_all add: addCitation_inv addCitation_keys)

lemma foldl_Set_add_distinct_length:
  "distinct acc \<Longrightarrow> length (foldl Set_add acc xs) = card (set acc \<union> set xs)"
  by (metis distinct_card distinct_foldl_Set_add set_foldl_Set_add)

text \<open>
  C5. The citation list of one synthesis pass carries the ids 1, 2, ..., K in this order,
  K its length; its urls are the urls of the retrieved chunks followed by those of the
  first 20 search results, each url kept at its first appearance only, so that there is
  exactly one citation per distinct url and K is the number of distinct urls.
\<close>

theorem citation_ids_contiguous:
  "map cit_id (buildCitationMap state) = [1..<Suc (length (buildCitationMap state))]
   \<and> map cit_url (buildCitationMap state) =
       new_Set (map (\<lambda>chunk. md_url (rc_metadata chunk)) (retrievedChunks state)
                @ map sr_url (take 20 (searchResults state)))
   \<and> distinct (map cit_url (buildCitationMap state))
   \<and> length (buildCitationMap state) =
       card (set (map (\<lambda>chunk. md_url (rc_metadata chunk)) (retrievedChunks state))
             \<union> set (map sr_url (take 20 (searchResults state))))"
proof -
  let ?f1 = "\<lambda>chunk. md_url (rc_metadata chunk)"
  let ?a1 = "foldl (\<lambda>acc chunk. addCitation acc (?f1 chunk) (md_title (rc_metadata chunk)))
              ([], 1) (retrievedChunks state)"
  let ?a2 = "foldl (\<lambda>acc result. addCitation acc (sr_url result) (sr_title result))
              ?a1 (take 20 (searchResults state))"
  have i0: "citeInv ([], 1)" by (simp add: citeInv_def)
  from foldl_addCitation [OF i0, of ?f1 "\<lambda>chunk. md_title (rc_metadata chunk)" "retrievedChunks state"]
  have i1: "citeInv ?a1" and k1: "map fst (fst ?a1) = foldl Set_add [] (map ?f1 (retrievedChunks state))"
    by simp_all
  from foldl_addCitation [OF i1, of sr_url sr_title "take 20 (searchResults state)"]
  have i2: "citeInv ?a2" and k2: "map fst (fst ?a2) = foldl Set_add (map fst (fst ?a1)) (map sr_url (take 20 (searchResults state)))"
    by simp_all
  have b: "buildCitationMap state = map snd (fst ?a2)"
    by (simp add: buildCitationMap_def Let_def)
  have keys: "map fst (fst ?a2) = new_Set (map ?f1 (retrievedChunks state) @ map sr_url (take 20 (searchResults state)))"
    using k1 k2 by (simp add: new_Set_def)
  obtain m n where mn: "?a2 = (m, n)" by (cases ?a2)
  from i2 mn have inv: "map (cit_url \<circ> snd) m = map fst m" "map (cit_id \<circ> snd) m = [1..<n]" "n = Suc (length m)"
    by (simp_all add: citeInv_def)
  have c1: "map cit_id (buildCitationMap state) = [1..<Suc (length (buildCitationMap state))]"
    using inv b mn by simp
  have c2: "map cit_url (buildCitationMap state) = new_Set (map ?f1 (retrievedChunks state) @ map sr_url (take 20 (searchResults state)))"
  proof -
    have "map cit_url (buildCitationMap state) = map (cit_url \<circ> snd) m"
      using b mn by simp
    also have "\<dots> = map fst m" by (rule inv(1))
    also have "\<dots> = new_Set (map ?f1 (retrievedChunks state) @ map sr_url (take 20 (searchResults state)))"
      using keys mn by simp
    finally show ?thesis .
  qed
  have c3: "distinct (map cit_url (buildCitationMap state))"
    unfolding c2 by (rule distinct_new_Set)
  have "length (buildCitationMap state) = length (map cit_url (buildCitationMap state))" by simp
  also have "\<dots> = card (set (new_Set (map ?f1 (retrievedChunks state) @ map sr_url (take 20 (searchResults state)))))"
    unfolding c2 by (simp add: distinct_card distinct_new_Set)
  finally have c4: "length (buildCitationMap state) =
       card (set (map ?f1 (retrievedChunks state)) \<union> set (map sr_url (take 20 (searchResults state))))"
    by (simp add: set_new_Set)
  show ?thesis using c1 c2 c3 c4 by blast
qed

section \<open>Retrieval from the vector store\<close>

text \<open>
  C10. When the store holds \<open>count\<close> documents, every query the retrieval function sends
  asks for at most \<open>min k count\<close> results; with \<open>count = 0\<close> it sends none and
  returns the empty list; and every chunk it returns has more than 20 characters of
  content, taken from a document of the answer, with the score
  \<open>max 0 (1 - distance / 2)\<close> of that document's distance (1 when the store gave none).
\<close>

theorem retrieve_contract:
  assumes "vs_count store = Inr count"
  shows "(\<forall>n \<in> set (fst (retrieveFromVectorDB store query topK)). n \<le> min topK count)
    \<and> (count = 0 \<longrightarrow> retrieveFromVectorDB store query topK = ([], Inr []))
    \<and> (\<forall>chunks. snd (retrieveFromVectorDB store query topK) = Inr chunks \<longrightarrow>
         (\<forall>chunk \<in> set chunks.
            length (rc_content chunk) > 20
            \<and> (\<exists>results docs i.
                 vs_query store query (min topK count) = Inr results
                 \<and> first_row (documents results) = Some docs
                 \<and> i < length docs
                 \<and> rc_content chunk = (case docs ! i of None \<Rightarrow> [] | Some d \<Rightarrow> d)
                 \<and> rc_relevanceScore chunk = max 0 (1 - distance_at results i / 2))))"
proof (intro conjI allI impI ballI)
  fix n assume "n \<in> set (fst (retrieveFromVectorDB store query topK))"
  then show "n \<le> min topK count"
    using assms by (auto simp: retrieveFromVectorDB_def split: sum.splits option.splits if_splits)
next
  assume "count = 0"
  then show "retrieveFromVectorDB store query topK = ([], Inr [])"
    using assms by (simp add: retrieveFromVectorDB_def)
next
  fix chunks chunk
  assume r: "snd (retrieveFromVectorDB store query topK) = Inr chunks" and m: "chunk \<in> set chunks"
  show "length (rc_content chunk) > 20"
    using r m assms
    by (auto simp: retrieveFromVectorDB_def split: sum.splits option.splits if_splits)
next
  fix chunks chunk
  assume r: "snd (retrieveFromVectorDB store query topK) = Inr chunks" and m: "chunk \<in> set chunks"
  from r m assms obtain results docs where
    q: "vs_query store query (min topK count) = Inr results"
    and d: "first_row (documents results) = Some docs"
    and c: "chunk \<in> set (map (toRetrievedChunk results) (enumerate 0 docs))"
    by (auto simp: retrieveFromVectorDB_def split: sum.splits option.splits if_splits)
  from c obtain i where i: "i < length docs" and e: "chunk = toRetrievedChunk results (i, docs ! i)"
    by (auto simp: in_set_enumerate_eq)
  show "\<exists>results docs i.
          vs_query store query (min topK count) = Inr results
          \<and> first_row (documents results) = Some docs
          \<and> i < length docs
          \<and> rc_content chunk = (case docs ! i of None \<Rightarrow> [] | Some d \<Rightarrow> d)
          \<and> rc_relevanceScore chunk = max 0 (1 - distance_at results i / 2)"
    using q d i e by (auto simp: toRetrievedChunk_def)
qed

lemma retrieve_exampleStore:
  "retrieveFromVectorDB exampleStore q 5 = ([4], Inr [chunkA, chunkB])"
  by (simp add: retrieveFromVectorDB_def exampleStore_def exampleQueryResults_def
      first_row_def enumerate_eq_zip toRetrievedChunk_def distance_at_def chunkA_def
      chunkB_def docA_def docB_def upt_rec)

theorem retrieve_contract_witness:
  "vs_count exampleStore = Inr 4
   \<and> retrieveFromVectorDB exampleStore ''X'' 5 = ([4], Inr [chunkA, chunkB])
   \<and> (4::nat) \<le> min 5 4
   \<and> length (rc_content chunkA) > 20
   \<and> length (rc_content chunkB) > 20
   \<and> vs_count emptyStore = Inr 0
   \<and> retrieveFromVectorDB emptyStore ''X'' 5 = ([], Inr [])"
proof -
  have h: "vs_count exampleStore = Inr 4" by (simp add: exampleStore_def)
  have e: "retrieveFromVectorDB exampleStore ''X'' 5 = ([4], Inr [chunkA, chunkB])"
    by (rule retrieve_exampleStore)
  have h0: "vs_count emptyStore = Inr 0" by (simp add: emptyStore_def)
  show ?thesis
    using retrieve_contract [OF h, of "''X''" 5] retrieve_contract [OF h0, of "''X''" 5] h h0 e
    by simp
qed

section \<open>The ranked, deduplicated retrieval result\<close>

lemma dedupStep_inv: "dedupInv acc \<Longrightarrow> dedupInv (dedupStep acc chunk)"
  by (cases acc) (auto simp: dedupInv_def dedupStep_def Set_add_def)

lemma foldl_dedupStep_inv: "dedupInv acc \<Longrightarrow> dedupInv (foldl dedupStep acc chunks)"
  by (induction chunks arbitrary: acc) (simp_all add: dedupStep_inv)

lemma deduped_props:
  "distinct (map dedupKey (snd (foldl dedupStep ([], []) chunks)))
   \<and> (\<forall>c \<in> set (snd (foldl dedupStep ([], []) chunks)). length (rc_content c) > 50)"
proof -
  have "dedupInv ([], [])" by (simp add: dedupInv_def)
  then have "dedupInv (foldl dedupStep ([], []) chunks)" by (rule foldl_dedupStep_inv)
  then show ?thesis
    by (cases "foldl dedupStep ([], []) chunks") (auto simp: dedupInv_def)
qed

lemma distinct_map_sort_key:
  "distinct (map k (sort_key f xs)) = distinct (map k xs)"
  by (simp add: distinct_map)

lemma distinct_map_take: "distinct (map k xs) \<Longrightarrow> distinct (map k (take n xs))"
  by (simp add: take_map [symmetric] del: take_map)

lemma sorted_desc_sort_key:
  "sorted_wrt (\<lambda>a b. rc_relevanceScore a \<ge> rc_relevanceScore b)
     (sort_key (\<lambda>chunk. - rc_relevanceScore chunk) xs)"
proof -
  have "sorted (map (\<lambda>chunk. - rc_relevanceScore chunk) (sort_key (\<lambda>chunk. - rc_relevanceScore chunk) xs))"
    by (rule sorted_sort_key)
  then show ?thesis by (simp add: sorted_map)
qed

lemma topChunks_props:
  "length (topChunks allResults) \<le> 20
   \<and> sorted_wrt (\<lambda>a b. rc_relevanceScore a \<ge> rc_relevanceScore b) (topChunks allResults)
   \<and> distinct (map dedupKey (topChunks allResults))
   \<and> (\<forall>c \<in> set (topChunks allResults). length (rc_content c) > 50)"
proof -
  let ?d = "snd (foldl dedupStep ([], []) (concat allResults))"
  let ?s = "sort_key (\<lambda>chunk. - rc_relevanceScore chunk) ?d"
  have t: "topChunks allResults = take 20 ?s"
    by (simp add: topChunks_def MAX_TOTAL_CHUNKS_def)
  have l: "length (topChunks allResults) \<le> 20" unfolding t by simp
  have s: "sorted_wrt (\<lambda>a b. rc_relevanceScore a \<ge> rc_relevanceScore b) (topChunks allResults)"
    unfolding t by (rule sorted_wrt_take) (rule sorted_desc_sort_key)
  have d: "distinct (map dedupKey (topChunks allResults))"
    unfolding t using deduped_props [of "concat allResults"]
    by (intro distinct_map_take) (simp add: distinct_map_sort_key)
  have "set (topChunks allResults) \<subseteq> set ?d"
    unfolding t using set_take_subset [of 20 ?s] by simp
  then have c: "\<forall>c \<in> set (topChunks allResults). length (rc_content c) > 50"
    using deduped_props [of "concat allResults"] by blast
  show ?thesis using l s d c by blast
qed

text \<open>
  C6. When the retrieval stage returns a chunk list, which then replaces the previous one
  in the state, the list has at most 20 entries, is sorted by non-increasing relevance
  score, holds no two chunks with the same trimmed 100-character prefix of their content,
  and holds no chunk with 50 characters of content or fewer.
\<close>

theorem retrieval_output:
  assumes "u_retrievedChunks (retrievalNode store state) = Some chunks"
  shows "length chunks \<le> 20
    \<and> sorted_wrt (\<lambda>a b. rc_relevanceScore a \<ge> rc_relevanceScore b) chunks
    \<and> distinct (map (\<lambda>c. trim (take 100 (rc_content c))) chunks)
    \<and> (\<forall>c \<in> set chunks. length (rc_content c) > 50)
    \<and> retrievedChunks (applyUpdate state (retrievalNode store state)) = chunks"
proof -
  from assms obtain allResults where c: "chunks = topChunks allResults"
    by (auto simp: retrievalNode_def errorUpdate_def emptyUpdate_def split: sum.splits)
  have k: "(\<lambda>c. trim (take 100 (rc_content c))) = dedupKey"
    by (simp add: dedupKey_def fun_eq_iff)
  have r: "retrievedChunks (applyUpdate state (retrievalNode store state)) = chunks"
    using assms by (simp add: applyUpdate_def reduceWith_def replaceReducer_def)
  show ?thesis
    unfolding k using topChunks_props [of allResults] c r by simp
qed

lemma retrievalNode_example:
  "retrievalNode exampleStore retrievalState
     = emptyUpdate \<lparr> u_retrievedChunks := Some [chunkB, chunkA],
                     u_currentNode := Some Synthesizing \<rparr>"
  by (simp add: retrievalNode_def retrievalQueries_def retrievalState_def initialState_def
      exampleSubQuery_def TOP_K_PER_QUERY_def retrieve_exampleStore topChunks_def
      MAX_TOTAL_CHUNKS_def dedupStep_def dedupKey_def Set_add_def trim_def isSpace_def
      chunkA_def chunkB_def docA_def docB_def)

theorem retrieval_output_witness:
  "u_retrievedChunks (retrievalNode exampleStore retrievalState) = Some [chunkB, chunkA]
   \<and> retrievedChunks retrievalState = [exampleChunk]
   \<and> retrievedChunks (applyUpdate retrievalState (retrievalNode exampleStore retrievalState))
        = [chunkB, chunkA]
   \<and> rc_relevanceScore chunkB \<ge> rc_relevanceScore chunkA
   \<and> trim (take 100 (rc_content chunkB)) \<noteq> trim (take 100 (rc_content chunkA))
   \<and> length (rc_content chunkA) > 50 \<and> length (rc_content chunkB) > 50"
proof -
  have h: "u_retrievedChunks (retrievalNode exampleStore retrievalState) = Some [chunkB, chunkA]"
    by (simp add: retrievalNode_example emptyUpdate_def)
  have s: "retrievedChunks retrievalState = [exampleChunk]"
    by (simp add: retrievalState_def)
  show ?thesis
    using retrieval_output [OF h] h s by simp
qed

section \<open>The number of windows of a page\<close>

lemma split_ws_not_Nil: "split_ws s \<noteq> []"
  by (induction s) (simp_all split: list.split)

lemma split_ws_nonspace: "w \<in> set (split_ws s) \<Longrightarrow> c \<in> set w \<Longrightarrow> \<not> isSpace c"
proof (induction s arbitrary: w)
  case Nil
  then show ?case by simp
next
  case (Cons d ds)
  obtain v vs where e: "split_ws ds = v # vs"
    using split_ws_not_Nil [of ds] by (cases "split_ws ds") auto
  show ?case
  proof (cases "isSpace d")
    case True
    then show ?thesis using Cons by (auto split: if_splits)
  next
    case False
    then have "w = d # v \<or> w \<in> set vs" using Cons.prems(1) e by simp
    then show ?thesis
      using False Cons.prems(2) Cons.IH [of v] Cons.IH [of w] e by auto
  qed
qed

lemma split_ws_letter:
  "\<not> isSpace d \<Longrightarrow> split_ws (d # ds) = (d # hd (split_ws ds)) # tl (split_ws ds)"
  using split_ws_not_Nil [of ds] by (cases "split_ws ds") simp_all

lemma empties_tl_split_ws: "length (filter (\<lambda>w. w = []) (tl (split_ws s))) \<le> 1"
proof (induction s)
  case Nil
  then show ?case by simp
next
  case (Cons c cs)
  note IH = Cons.IH
  show ?case
  proof (cases "isSpace c")
    case False
    then have "split_ws (c # cs) = (c # hd (split_ws cs)) # tl (split_ws cs)"
      by (rule split_ws_letter)
    then have "tl (split_ws (c # cs)) = tl (split_ws cs)"
      by (simp only: list.sel)
    then show ?thesis using IH by simp
  next
    case True
    note sp = this
    show ?thesis
    proof (cases "startsWithSpace cs")
      case True
      then have "split_ws (c # cs) = split_ws cs" using sp by simp
      then show ?thesis using IH by simp
    next
      case False
      then have e: "split_ws (c # cs) = [] # split_ws cs" using sp by simp
      show ?thesis
      proof (cases cs)
        case Nil
        then show ?thesis using e by simp
      next
        case (Cons d ds)
        then have "\<not> isSpace d" using False by (simp add: startsWithSpace_def)
        then have "split_ws (d # ds) = (d # hd (split_ws ds)) # tl (split_ws ds)"
          by (rule split_ws_letter)
        then have "filter (\<lambda>w. w = []) (split_ws cs) = filter (\<lambda>w. w = []) (tl (split_ws cs))"
          unfolding Cons by simp
        then show ?thesis using e IH by simp
      qed
    qed
  qed
qed

lemma empties_split_ws: "length (filter (\<lambda>w. w = []) (split_ws s)) \<le> 2"
proof -
  obtain w ws where e: "split_ws s = w # ws"
    using split_ws_not_Nil [of s] by (cases "split_ws s") auto
  with empties_tl_split_ws [of s] show ?thesis by simp
qed

lemma filter_dropWhile_not:
  "filter (\<lambda>c. \<not> P c) (dropWhile P s) = filter (\<lambda>c. \<not> P c) s"
  by (induction s) auto

lemma filter_trim: "filter (\<lambda>c. \<not> isSpace c) (trim s) = filter (\<lambda>c. \<not> isSpace c) s"
proof -
  have "filter (\<lambda>c. \<not> isSpace c) (trim s)
      = rev (filter (\<lambda>c. \<not> isSpace c) (dropWhile isSpace (rev (dropWhile isSpace s))))"
    by (simp add: trim_def rev_filter)
  also have "\<dots> = rev (filter (\<lambda>c. \<not> isSpace c) (rev (dropWhile isSpace s)))"
    by (simp only: filter_dropWhile_not)
  also have "\<dots> = filter (\<lambda>c. \<not> isSpace c) (dropWhile isSpace s)"
    by (simp add: rev_filter)
  also have "\<dots> = filter (\<lambda>c. \<not> isSpace c) s"
    by (rule filter_dropWhile_not)
  finally show ?thesis .
qed

lemma length_trim_ge: "length (filter (\<lambda>c. \<not> isSpace c) s) \<le> length (trim s)"
proof -
  have "length (filter (\<lambda>c. \<not> isSpace c) (trim s)) \<le> length (trim s)"
    by (rule length_filter_le)
  then show ?thesis by (simp only: filter_trim)
qed

lemma nonspace_join:
  "\<forall>w \<in> set ws. \<forall>c \<in> set w. \<not> isSpace c \<Longrightarrow>
   length (filter (\<lambda>c. \<not> isSpace c) (join '' '' ws)) = sum_list (map length ws)"
proof (induction "'' ''" ws rule: join.induct)
  case 1
  then show ?case by simp
next
  case (2 w)
  then show ?case by (simp add: filter_id_conv [THEN iffD2])
next
  case (3 w v ws)
  have "filter (\<lambda>c. \<not> isSpace c) w = w" using 3(2) by (simp add: filter_id_conv)
  then show ?case using 3 by (simp add: isSpace_def)
qed

lemma nonempty_le_sum: "length (filter (\<lambda>w. w \<noteq> []) ws) \<le> sum_list (map length ws)"
proof (induction ws)
  case Nil
  then show ?case by simp
next
  case (Cons w ws)
  then show ?case by (cases w) simp_all
qed

lemma filter_take_le: "length (filter P (take n ys)) \<le> length (filter P ys)"
proof -
  have "filter P ys = filter P (take n ys) @ filter P (drop n ys)"
    by (metis append_take_drop_id filter_append)
  then show ?thesis by simp
qed

lemma filter_drop_le: "length (filter P (drop n ys)) \<le> length (filter P ys)"
proof -
  have "filter P ys = filter P (take n ys) @ filter P (drop n ys)"
    by (metis append_take_drop_id filter_append)
  then show ?thesis by simp
qed

lemma filter_take_drop_le:
  "length (filter P (take n (drop m xs))) \<le> length (filter P xs)"
  using filter_take_le [of P n "drop m xs"] filter_drop_le [of P m xs] by (rule le_trans)

lemma len_window:
  fixes i :: int
  assumes "0 \<le> i" "i + 200 < int (length words)"
  shows "200 < length (take (nat (min (i + 1000) (int (length words)) - i)) (drop (nat i) words))"
proof -
  have a: "200 < nat (min (i + 1000) (int (length words)) - i)"
    using assms unfolding min_def by (cases "i + 1000 \<le> int (length words)") simp_all
  have b: "200 < length words - nat i"
    using assms by linarith
  show ?thesis using a b by simp
qed

lemma ceiling_div_800:
  fixes a :: int
  shows "\<lceil>real_of_int a / 800\<rceil> = (a + 799) div 800"
proof -
  define n where "n = (a + 799) div 800"
  have "800 * n + (a + 799) mod 800 = a + 799"
    unfolding n_def by (rule mult_div_mod_eq)
  moreover have "0 \<le> (a + 799) mod 800" and "(a + 799) mod 800 < 800"
    by simp_all
  ultimately have 1: "800 * n \<le> a + 799" and 2: "a + 799 < 800 * n + 800"
    by linarith+
  from 1 have "800 * n - 800 < a" by linarith
  then have "real_of_int (800 * n - 800) < real_of_int a" by (simp only: of_int_less_iff)
  then have l: "real_of_int n - 1 < real_of_int a / 800" by simp
  from 2 have "a \<le> 800 * n" by linarith
  then have "real_of_int a \<le> real_of_int (800 * n)" by (simp only: of_int_le_iff)
  then have u: "real_of_int a / 800 \<le> real_of_int n" by simp
  show ?thesis unfolding n_def [symmetric] using l u by (rule ceiling_unique)
qed

lemma slice_window:
  "0 \<le> i \<Longrightarrow> i < int (length words) \<Longrightarrow> 0 \<le> n \<Longrightarrow>
   slice words i (i + n) = take (nat (min (i + n) (int (length words)) - i)) (drop (nat i) words)"
  by (simp add: slice_def Let_def min_def)

lemma window_passes:
  assumes ns: "\<forall>w \<in> set words. \<forall>c \<in> set w. \<not> isSpace c"
    and em: "length (filter (\<lambda>w. w = []) words) \<le> 2"
    and i0: "0 \<le> i" and iW: "i + 200 < int (length words)"
  shows "50 < length (trim (join '' '' (slice words i (i + 1000))))"
proof -
  let ?win = "slice words i (i + 1000)"
  have w: "?win = take (nat (min (i + 1000) (int (length words)) - i)) (drop (nat i) words)"
    using i0 iW by (intro slice_window) simp_all
  have len: "200 < length ?win" unfolding w using i0 iW by (rule len_window)
  have sub: "set ?win \<subseteq> set words"
    unfolding w by (meson set_take_subset set_drop_subset subset_trans)
  have ns': "\<forall>w \<in> set ?win. \<forall>c \<in> set w. \<not> isSpace c" using ns sub by blast
  have em': "length (filter (\<lambda>w. w = []) ?win) \<le> 2"
    unfolding w using filter_take_drop_le [of "\<lambda>w. w = []" _ "nat i" words] em
    by (meson le_trans)
  have "length (filter (\<lambda>w. w = []) ?win) + length (filter (\<lambda>w. w \<noteq> []) ?win) = length ?win"
    using sum_length_filter_compl [of "\<lambda>w. w = []" ?win] by simp
  then have "198 < length (filter (\<lambda>w. w \<noteq> []) ?win)" using len em' by linarith
  also have "\<dots> \<le> sum_list (map length ?win)" by (rule nonempty_le_sum)
  also have "\<dots> = length (filter (\<lambda>c. \<not> isSpace c) (join '' '' ?win))"
    using nonspace_join [OF ns'] by simp
  also have "\<dots> \<le> length (trim (join '' '' ?win))" by (rule length_trim_ge)
  finally show ?thesis by simp
qed

lemma chunk_loop_count:
  assumes ns: "\<forall>w \<in> set words. \<forall>c \<in> set w. \<not> isSpace c"
    and em: "length (filter (\<lambda>w. w = []) words) \<le> 2"
  shows "0 \<le> i \<Longrightarrow> i + 200 < int (length words) \<Longrightarrow>
    \<exists>r. chunk_loop words 1000 200 i chunks = Some (chunks @ r)
       \<and> int (length r) = (int (length words) - i - 200 + 799) div 800"
proof (induction "nat (int (length words) - i)" arbitrary: i chunks rule: less_induct)
  case less
  have pass: "50 < length (trim (join '' '' (slice words i (i + 1000))))"
    using ns em less.prems by (rule window_passes)
  have lt: "i < int (length words)" using less.prems by simp
  show ?case
  proof (cases "i + 1000 \<ge> int (length words)")
    case True
    have "chunk_loop words 1000 200 i chunks
        = Some (chunks @ [join '' '' (slice words i (i + 1000))])"
      by (subst chunk_loop.simps) (simp add: lt True pass)
    moreover have "(int (length words) - i - 200 + 799) div 800 = 1"
      using True less.prems by simp
    ultimately show ?thesis by simp
  next
    case False
    let ?c = "chunks @ [join '' '' (slice words i (i + 1000))]"
    have step: "chunk_loop words 1000 200 i chunks = chunk_loop words 1000 200 (i + 800) ?c"
      by (subst chunk_loop.simps) (simp add: lt False pass)
    have "nat (int (length words) - (i + 800)) < nat (int (length words) - i)"
      using lt by simp
    moreover have "0 \<le> i + 800" using less.prems by simp
    moreover have "i + 800 + 200 < int (length words)" using False by simp
    ultimately obtain r where r: "chunk_loop words 1000 200 (i + 800) ?c = Some (?c @ r)"
      and n: "int (length r) = (int (length words) - (i + 800) - 200 + 799) div 800"
      using less.hyps [of "i + 800" ?c] by blast
    have "int (length (join '' '' (slice words i (i + 1000)) # r))
        = (int (length words) - i - 200 + 799) div 800"
      using n by simp
    then show ?thesis using step r by (metis append.assoc append_Cons append_Nil)
  qed
qed

section \<open>Failures of single items\<close>

lemma foldl_searchStep_failed:
  "foldl (searchStep sv) acc qs = foldl (searchStep sv) acc (filter (searchSucceeds sv) qs)"
proof (induction qs arbitrary: acc)
  case Nil
  then show ?case by simp
next
  case (Cons q qs)
  show ?case
  proof (cases "searchSucceeds sv q")
    case True
    then show ?thesis using Cons by simp
  next
    case False
    then have "searchStep sv acc q = acc"
      by (cases acc) (simp add: searchStep_def searchSucceeds_def split: sum.splits)
    then show ?thesis using False Cons by simp
  qed
qed

lemma slice_step:
  assumes "0 \<le> i" "i < int (length xs)" "0 < c"
  shows "slice xs i (i + c) = take (nat c) (drop (nat i) xs)"
proof -
  have "slice xs i (i + c) = take (nat (min (i + c) (int (length xs)) - i)) (drop (nat i) xs)"
    using assms by (simp add: slice_def Let_def min_def)
  also have "\<dots> = take (nat c) (drop (nat i) xs)"
  proof (cases "i + c \<le> int (length xs)")
    case True
    then show ?thesis by (simp add: min_def)
  next
    case False
    then have "length (drop (nat i) xs) \<le> nat (min (i + c) (int (length xs)) - i)"
      and "length (drop (nat i) xs) \<le> nat c"
      using assms by (simp_all add: min_def)
    then show ?thesis by simp
  qed
  finally show ?thesis .
qed

lemma scrape_loop_returns:
  assumes c: "0 < c"
  shows "0 \<le> i \<Longrightarrow>
    scrape_loop sv urls c i results = Some (results @ map (scrapeUrl sv) (drop (nat i) urls))"
proof (induction "nat (int (length urls) - i)" arbitrary: i results rule: less_induct)
  case less
  show ?case
  proof (cases "i < int (length urls)")
    case False
    then have "drop (nat i) urls = []" using less.prems by simp
    moreover have "scrape_loop sv urls c i results = Some results"
      using False by (subst scrape_loop.simps) simp
    ultimately show ?thesis by simp
  next
    case True
    have s: "slice urls i (i + c) = take (nat c) (drop (nat i) urls)"
      using less.prems True c by (rule slice_step)
    have step: "scrape_loop sv urls c i results
        = scrape_loop sv urls c (i + c) (results @ map (scrapeUrl sv) (take (nat c) (drop (nat i) urls)))"
      using True by (subst scrape_loop.simps) (simp add: s)
    have "nat (int (length urls) - (i + c)) < nat (int (length urls) - i)"
      using True c by simp
    moreover have "0 \<le> i + c" using less.prems c by simp
    ultimately have "scrape_loop sv urls c (i + c)
          (results @ map (scrapeUrl sv) (take (nat c) (drop (nat i) urls)))
        = Some ((results @ map (scrapeUrl sv) (take (nat c) (drop (nat i) urls)))
             @ map (scrapeUrl sv) (drop (nat (i + c)) urls))"
      by (rule less.hyps)
    moreover have "drop (nat (i + c)) urls = drop (nat c) (drop (nat i) urls)"
      using less.prems c by (simp add: nat_add_distrib add.commute)
    moreover have "take (nat c) (drop (nat i) urls) @ drop (nat c) (drop (nat i) urls)
        = drop (nat i) urls"
      by (rule append_take_drop_id)
    ultimately show ?thesis
      using step by (metis append.assoc map_append)
  qed
qed

lemma scrapeUrls_returns:
  "0 < c \<Longrightarrow> scrapeUrls sv urls c = Some (filter scrapeOk (map (scrapeUrl sv) urls))"
  using scrape_loop_returns [of c 0 sv urls "[]"] by (simp add: scrapeUrls_def)

text \<open>
  C9, amended. A sub-query whose search call fails is skipped: the stage returns its normal
  update, without an \<open>errors\<close> key, and its search results are those of the loop run
  over the sub-queries whose call succeeds, in priority order. A url whose scrape fails
  yields a page that the filter drops: for a positive concurrency \<open>scrapeUrls\<close> returns
  the pages of all the urls, in order, that have no error and more than 50 words, and the
  scrape stage returns them in its normal update, without an \<open>errors\<close> key.
\<close>

theorem per_item_failures_skipped:
  "(subQueries state \<noteq> [] \<longrightarrow>
      u_errors (searchNode sv state) = None
      \<and> u_currentNode (searchNode sv state) = Some Scraping
      \<and> u_searchResults (searchNode sv state) =
          Some (snd (foldl (searchStep sv) (new_Set (map sr_url (searchResults state)), [])
                  (filter (searchSucceeds sv)
                     (sort_key (\<lambda>sq. priorityOrder (sq_priority sq)) (subQueries state))))))
   \<and> (0 < concurrency \<longrightarrow>
        scrapeUrls sv urls concurrency = Some (filter scrapeOk (map (scrapeUrl sv) urls)))
   \<and> (searchResults state \<noteq> [] \<longrightarrow> urlsToScrape state \<noteq> [] \<longrightarrow>
        scraperNode sv state =
          Some (emptyUpdate \<lparr>
            u_scrapedContent := Some (filter scrapeOk (map (scrapeUrl sv) (urlsToScrape state))),
            u_currentNode := Some Storing \<rparr>))"
proof (intro conjI impI)
  assume "subQueries state \<noteq> []"
  then show "u_errors (searchNode sv state) = None"
    and "u_currentNode (searchNode sv state) = Some Scraping"
    by (simp_all add: searchNode_def emptyUpdate_def)
next
  assume "subQueries state \<noteq> []"
  then show "u_searchResults (searchNode sv state) =
          Some (snd (foldl (searchStep sv) (new_Set (map sr_url (searchResults state)), [])
                  (filter (searchSucceeds sv)
                     (sort_key (\<lambda>sq. priorityOrder (sq_priority sq)) (subQueries state)))))"
    by (simp add: searchNode_def emptyUpdate_def foldl_searchStep_failed [symmetric])
next
  assume "0 < concurrency"
  then show "scrapeUrls sv urls concurrency = Some (filter scrapeOk (map (scrapeUrl sv) urls))"
    by (rule scrapeUrls_returns)
next
  assume "searchResults state \<noteq> []" and "urlsToScrape state \<noteq> []"
  moreover have "scrapeUrls sv (urlsToScrape state) CONCURRENCY
      = Some (filter scrapeOk (map (scrapeUrl sv) (urlsToScrape state)))"
    by (rule scrapeUrls_returns) (simp add: CONCURRENCY_def)
  ultimately show "scraperNode sv state =
          Some (emptyUpdate \<lparr>
            u_scrapedContent := Some (filter scrapeOk (map (scrapeUrl sv) (urlsToScrape state))),
            u_currentNode := Some Storing \<rparr>)"
    by (simp add: scraperNode_def)
qed

lemma searchNode_mixed:
  "searchNode exampleServices mixedSearchState
     = emptyUpdate \<lparr> u_searchResults := Some [exampleResult], u_currentNode := Some Scraping \<rparr>"
  by (simp add: searchNode_def mixedSearchState_def initialState_def exampleServices_def
      badSubQuery_def exampleSubQuery_def searchStep_def MAX_RESULTS_PER_QUERY_def
      new_Set_def Set_add_def exampleResult_def)

lemma urlsToScrape_scrapeState:
  "urlsToScrape scrapeState = [''https://a.example/1'', ''https://b.example/2'']"
  by (simp add: urlsToScrape_def scrapeState_def initialState_def MAX_URLS_TO_SCRAPE_def
      new_Set_def scoreOf_def exampleResult_def otherResult_def)

lemma scrapeUrl_examples:
  "scrapeOk examplePage"
  "scrapeOk (scrapeUrl exampleServices ''https://b.example/2'') = False"
  "scrapeUrl exampleServices ''https://a.example/1'' = examplePage"
  by (simp_all add: scrapeOk_def exampleServices_def examplePage_def failedPage_def)

text \<open>
  C9 as stated fails on the logging: a search call that throws is caught with a warning on
  the console, a page that failed is dropped by the filter, and in neither case does the
  stage's update hold an \<open>errors\<close> key, so the session's error list stays as it was.
\<close>

theorem failures_not_logged:
  "searchSucceeds exampleServices badSubQuery = False
   \<and> badSubQuery \<in> set (subQueries mixedSearchState)
   \<and> errors (applyUpdate mixedSearchState (searchNode exampleServices mixedSearchState)) = []
   \<and> scrapeOk (scrapeUrl exampleServices ''https://b.example/2'') = False
   \<and> ''https://b.example/2'' \<in> set (urlsToScrape scrapeState)
   \<and> scraperNode exampleServices scrapeState =
       Some (emptyUpdate \<lparr> u_scrapedContent := Some [examplePage],
                           u_currentNode := Some Storing \<rparr>)
   \<and> errors (applyUpdate scrapeState
        (emptyUpdate \<lparr> u_scrapedContent := Some [examplePage],
                       u_currentNode := Some Storing \<rparr>)) = []"
proof -
  have 1: "searchSucceeds exampleServices badSubQuery = False"
    by (simp add: searchSucceeds_def exampleServices_def badSubQuery_def)
  have 2: "badSubQuery \<in> set (subQueries mixedSearchState)"
    by (simp add: mixedSearchState_def)
  have 3: "errors (applyUpdate mixedSearchState (searchNode exampleServices mixedSearchState)) = []"
    unfolding searchNode_mixed
    by (simp add: applyUpdate_def reduceWith_def emptyUpdate_def
        mixedSearchState_def initialState_def)
  have 4: "scrapeUrls exampleServices (urlsToScrape scrapeState) CONCURRENCY = Some [examplePage]"
    by (simp add: scrapeUrls_returns CONCURRENCY_def urlsToScrape_scrapeState scrapeUrl_examples)
  have 5: "scraperNode exampleServices scrapeState =
       Some (emptyUpdate \<lparr> u_scrapedContent := Some [examplePage],
                           u_currentNode := Some Storing \<rparr>)"
    unfolding scraperNode_def 4
    by (simp add: urlsToScrape_scrapeState) (simp add: scrapeState_def scrapeOk_def examplePage_def)
  have 6: "errors (applyUpdate scrapeState
        (emptyUpdate \<lparr> u_scrapedContent := Some [examplePage],
                       u_currentNode := Some Storing \<rparr>)) = []"
    by (simp add: applyUpdate_def reduceWith_def emptyUpdate_def scrapeState_def initialState_def)
  show ?thesis
    using 1 2 3 5 6 by (simp add: urlsToScrape_scrapeState scrapeUrl_examples)
qed

theorem per_item_failures_skipped_witness:
  "subQueries mixedSearchState \<noteq> []
   \<and> searchSucceeds exampleServices badSubQuery = False
   \<and> u_errors (searchNode exampleServices mixedSearchState) = None
   \<and> u_searchResults (searchNode exampleServices mixedSearchState) = Some [exampleResult]
   \<and> (0::int) < 3
   \<and> scrapeUrls exampleServices [''https://a.example/1'', ''https://b.example/2''] 3
        = Some [examplePage]
   \<and> searchResults scrapeState \<noteq> [] \<and> urlsToScrape scrapeState \<noteq> []
   \<and> scraperNode exampleServices scrapeState =
       Some (emptyUpdate \<lparr> u_scrapedContent := Some [examplePage],
                           u_currentNode := Some Storing \<rparr>)"
proof -
  have h1: "subQueries mixedSearchState \<noteq> []" by (simp add: mixedSearchState_def)
  have h2: "searchResults scrapeState \<noteq> []" by (simp add: scrapeState_def)
  have h3: "urlsToScrape scrapeState \<noteq> []" by (simp add: urlsToScrape_scrapeState)
  have e: "searchSucceeds exampleServices badSubQuery = False"
    by (simp add: searchSucceeds_def exampleServices_def badSubQuery_def)
  have r: "u_searchResults (searchNode exampleServices mixedSearchState) = Some [exampleResult]"
    by (simp add: searchNode_mixed emptyUpdate_def)
  from per_item_failures_skipped
    [of mixedSearchState exampleServices 3 "[''https://a.example/1'', ''https://b.example/2'']"]
  have a: "u_errors (searchNode exampleServices mixedSearchState) = None"
    and b: "scrapeUrls exampleServices [''https://a.example/1'', ''https://b.example/2''] 3
        = Some (filter scrapeOk (map (scrapeUrl exampleServices)
             [''https://a.example/1'', ''https://b.example/2'']))"
    using h1 by simp_all
  from per_item_failures_skipped [of scrapeState exampleServices 3 "[]"]
  have c: "scraperNode exampleServices scrapeState =
          Some (emptyUpdate \<lparr>
            u_scrapedContent := Some (filter scrapeOk (map (scrapeUrl exampleServices) (urlsToScrape scrapeState))),
            u_currentNode := Some Storing \<rparr>)"
    using h2 h3 by simp
  show ?thesis
    using h1 h2 h3 e r a b c by (simp add: urlsToScrape_scrapeState scrapeUrl_examples)
qed

section \<open>Failures of a stage\<close>

text \<open>
  The stage-level failures set the marker to \<open>error\<close>, and the edges out of the stages
  before the review do not look at the state.
\<close>

lemma stage_failures_mark_error:
  "(subQueries state = [] \<longrightarrow> u_currentNode (searchNode sv state) = Some Error)
   \<and> (searchResults state = [] \<longrightarrow>
        map_option u_currentNode (scraperNode sv state) = Some (Some Error))
   \<and> (retrievedChunks state = [] \<longrightarrow> u_currentNode (synthesisNode sv state) = Some Error)
   \<and> (synthesize sv state = Inl message \<longrightarrow>
        u_currentNode (synthesisNode sv state) = Some Error)"
  by (simp add: searchNode_def scraperNode_def synthesisNode_def errorUpdate_def emptyUpdate_def)

lemma edges_ignore_state:
  "node \<noteq> N_human_review \<Longrightarrow>
   graphEdge MAX_ITERATIONS node state = graphEdge MAX_ITERATIONS node state'"
  by (cases node) simp_all

text \<open>
  C8 at a concrete input: the decomposition found no sub-query, so the search stage fails
  and sets the marker to \<open>error\<close>. The edge out of the search stage leads to the scrape
  stage all the same; the scrape stage fails too, the store stage sets the marker to
  \<open>retrieving\<close>, the retrieval finds the chunks of an earlier session, the synthesis
  writes a draft, and the run stops only at the interrupt before the human review, with
  the marker \<open>awaiting_human\<close>.
\<close>

theorem stage_failure_does_not_stop:
  "subQueries searchState = []
   \<and> searchNode exampleServices searchState = errorUpdate ''No sub-queries available for search''
   \<and> currentNode (applyUpdate searchState (searchNode exampleServices searchState)) = Error
   \<and> graphEdge 3 N_search (applyUpdate searchState (searchNode exampleServices searchState))
        = Node N_scraper
   \<and> map_option (\<lambda>(target, state). (target, currentNode state, errors state, draftReport state = None))
        (runGraph 6 exampleServices 3 N_search searchState)
      = Some (Node N_human_review, Awaiting_human,
              [''No sub-queries available for search'', ''No search results to scrape''], False)"
proof -
  have n: "numeral k = Suc (pred_numeral k)" for k by (rule numeral_eq_Suc)
  have r: "retrievalNode exampleStore s
     = emptyUpdate \<lparr> u_retrievedChunks := Some [chunkB, chunkA],
                     u_currentNode := Some Synthesizing \<rparr>"
    if "subQueries s = []" "humanFeedback s = None" for s
    using that
    by (simp add: retrievalNode_def retrievalQueries_def TOP_K_PER_QUERY_def
      retrieve_exampleStore topChunks_def
      MAX_TOTAL_CHUNKS_def dedupStep_def dedupKey_def Set_add_def trim_def isSpace_def
      chunkA_def chunkB_def docA_def docB_def)
  show ?thesis
    by (simp add: n searchState_def initialState_def searchNode_def scraperNode_def
        vectorStoreNode_def synthesisNode_def r exampleServices_def errorUpdate_def
        emptyUpdate_def applyUpdate_def reduceWith_def replaceReducer_def appendReducer_def
        dedupReducer_def)
qed

section \<open>Re-entry into decomposition after a rejection\<close>

text \<open>
  Whatever the state under review, a rejection makes the driver re-enter the graph, and
  the append reducers then see the accumulated evidence a second time.
\<close>

lemma reentry_after_rejection:
  assumes "humanReviewNode now state ls = Some (Returned u)"
    and "u_humanFeedback u = Some (Some fb)"
    and "\<not> approved fb"
  shows "reviewTurn now state ls = Some (Reenters (invokeEntry state (object_assign state u)))
    \<and> retrievedChunks (invokeEntry state (object_assign state u)) = []
    \<and> draftReport (invokeEntry state (object_assign state u)) = None
    \<and> searchResults (invokeEntry state (object_assign state u))
         = searchResults state @ searchResults state
    \<and> scrapedContent (invokeEntry state (object_assign state u))
         = scrapedContent state @ scrapedContent state"
proof -
  from read_changes_rest [OF assms]
  have u: "u_retrievedChunks u = Some []" "u_draftReport u = Some None"
    "u_searchResults u = None" "u_scrapedContent u = None" "u_iterationCount u = None"
    by simp_all
  have c: "u_currentNode u = Some Reasoning"
    using assms
  proof (induction now state ls rule: humanReviewNode.induct)
    case (1 now state)
    then show ?case by (auto simp: errorUpdate_def emptyUpdate_def split: option.splits)
  next
    case (2 now state l ls)
    then show ?case
      by (auto simp: errorUpdate_def emptyUpdate_def Let_def
          split: option.splits if_splits list.splits prod.splits)
  qed
  show ?thesis
    using u c assms
    by (simp add: reviewTurn_def invokeEntry_def inputOf_def applyUpdate_def object_assign_def
        reduceWith_def replaceReducer_def appendReducer_def)
qed

text \<open>
  C3 at a concrete input: a first-iteration draft is rejected with the maximum at 3. The
  driver merges the review's update into its state and passes the whole state to
  \<open>app.invoke\<close>, which writes it through the reducers on top of the checkpoint. The
  reasoning stage is entered with \<open>retrievedChunks\<close> empty and \<open>draftReport\<close>
  null, but with every search result and every scraped page twice.
\<close>

theorem reentry_doubles_evidence:
  "humanReviewNode ''2024-01-02T00:00:00.000Z'' (reviewState 1) rejectLines
     = Some (Returned rejectUpdate)
   \<and> iterationCount (reviewState 1) < 3
   \<and> searchResults (reviewState 1) = [exampleResult]
   \<and> scrapedContent (reviewState 1) = [examplePage]
   \<and> reviewTurn ''2024-01-02T00:00:00.000Z'' (reviewState 1) rejectLines
       = Some (Reenters (invokeEntry (reviewState 1)
                 (object_assign (reviewState 1) rejectUpdate)))
   \<and> retrievedChunks (invokeEntry (reviewState 1)
         (object_assign (reviewState 1) rejectUpdate)) = []
   \<and> draftReport (invokeEntry (reviewState 1)
         (object_assign (reviewState 1) rejectUpdate)) = None
   \<and> searchResults (invokeEntry (reviewState 1)
         (object_assign (reviewState 1) rejectUpdate)) = [exampleResult, exampleResult]
   \<and> scrapedContent (invokeEntry (reviewState 1)
         (object_assign (reviewState 1) rejectUpdate)) = [examplePage, examplePage]"
proof -
  have h1: "humanReviewNode ''2024-01-02T00:00:00.000Z'' (reviewState 1) rejectLines
     = Some (Returned rejectUpdate)"
    by (rule review_of_rejectLines)
  have h2: "u_humanFeedback rejectUpdate = Some (Some rejectFeedback)"
    by (simp add: rejectUpdate_def)
  have h3: "\<not> approved rejectFeedback"
    by (simp add: rejectFeedback_def)
  have s: "searchResults (reviewState 1) = [exampleResult]"
    "scrapedContent (reviewState 1) = [examplePage]"
    "iterationCount (reviewState 1) < 3"
    by (simp_all add: reviewState_def)
  show ?thesis
    using reentry_after_rejection [OF h1 h2 h3] h1 s by simp
qed

section \<open>The number of windows of a chunked page\<close>

text \<open>
  A window of at least 50 words that are not empty has more than 50 characters after
  trimming: its letters and at least one space between two of its words.
\<close>

lemma dropWhile_keeps: "\<not> P x \<Longrightarrow> \<exists>a'. dropWhile P (a @ x # r) = a' @ x # r"
  by (induction a) auto

lemma trim_between:
  assumes "\<not> isSpace x" "\<not> isSpace y"
  shows "\<exists>a' d'. trim (a @ x # m @ y # d) = a' @ x # m @ y # d'"
proof -
  obtain a' where 1: "dropWhile isSpace (a @ x # m @ y # d) = a' @ x # m @ y # d"
    using dropWhile_keeps [of isSpace x a "m @ y # d"] assms(1) by blast
  have "rev (a' @ x # m @ y # d) = rev d @ y # rev (a' @ x # m)"
    by simp
  moreover obtain e where "dropWhile isSpace (rev d @ y # rev (a' @ x # m)) = e @ y # rev (a' @ x # m)"
    using dropWhile_keeps [of isSpace y "rev d" "rev (a' @ x # m)"] assms(2) by blast
  ultimately have "rev (dropWhile isSpace (rev (a' @ x # m @ y # d))) = a' @ x # m @ y # rev e"
    by simp
  then show ?thesis unfolding trim_def 1 by blast
qed

lemma space_in_trim:
  assumes "z \<in> set (trim s)" "isSpace z"
  shows "length (filter (\<lambda>c. \<not> isSpace c) s) < length (trim s)"
proof -
  have "z \<in> set (filter isSpace (trim s))" using assms by simp
  then have 1: "0 < length (filter isSpace (trim s))"
    by (cases "filter isSpace (trim s)") auto
  have 2: "length (filter isSpace (trim s)) + length (filter (\<lambda>c. \<not> isSpace c) (trim s))
      = length (trim s)"
    by (rule sum_length_filter_compl)
  have 3: "length (filter (\<lambda>c. \<not> isSpace c) (trim s)) = length (filter (\<lambda>c. \<not> isSpace c) s)"
    by (simp only: filter_trim)
  show ?thesis using 1 2 3 by linarith
qed

lemma trim_inner_space:
  assumes "\<not> isSpace x" "\<not> isSpace y" "isSpace z" "z \<in> set m"
  shows "length (filter (\<lambda>c. \<not> isSpace c) (a @ x # m @ y # d)) < length (trim (a @ x # m @ y # d))"
proof -
  obtain a' d' where t: "trim (a @ x # m @ y # d) = a' @ x # m @ y # d'"
    using trim_between [OF assms(1) assms(2)] by blast
  have "z \<in> set (trim (a @ x # m @ y # d))" unfolding t using assms(4) by simp
  then show ?thesis using assms(3) by (rule space_in_trim)
qed

lemma join_Cons: "rest \<noteq> [] \<Longrightarrow> join sep (w # rest) = w @ sep @ join sep rest"
  by (cases rest) simp_all

lemma join_prefix: "\<exists>a. join sep (u @ w # rest) = a @ join sep (w # rest)"
proof (induction u)
  case Nil
  then show ?case by simp
next
  case (Cons h t)
  then obtain a where "join sep (t @ w # rest) = a @ join sep (w # rest)" by blast
  moreover have "join sep ((h # t) @ w # rest) = h @ sep @ join sep (t @ w # rest)"
    by (simp add: join_Cons)
  ultimately show ?case by simp
qed

lemma join_two_words:
  "\<exists>a m d. join '' '' (u @ (x # w1) # v @ (y # w2) # z) = a @ x # m @ y # d \<and> CHR '' '' \<in> set m"
proof -
  obtain a where a: "join '' '' (u @ (x # w1) # v @ (y # w2) # z)
      = a @ join '' '' ((x # w1) # v @ (y # w2) # z)"
    using join_prefix by blast
  have "join '' '' ((x # w1) # v @ (y # w2) # z) = (x # w1) @ '' '' @ join '' '' (v @ (y # w2) # z)"
    by (rule join_Cons) simp
  moreover obtain b where "join '' '' (v @ (y # w2) # z) = b @ join '' '' ((y # w2) # z)"
    using join_prefix by blast
  moreover obtain d where "join '' '' ((y # w2) # z) = y # d"
    by (cases z) simp_all
  ultimately have "join '' '' (u @ (x # w1) # v @ (y # w2) # z)
      = a @ x # (w1 @ '' '' @ b) @ y # d"
    using a by simp
  moreover have "CHR '' '' \<in> set (w1 @ '' '' @ b)" by simp
  ultimately show ?thesis by blast
qed

lemma two_nonempty_words:
  assumes "2 \<le> length (filter (\<lambda>w. w \<noteq> []) ws)"
  shows "\<exists>u x w1 v y w2 z. ws = u @ (x # w1) # v @ (y # w2) # z"
proof -
  obtain p r0 where f0: "filter (\<lambda>w. w \<noteq> []) ws = p # r0"
    using assms by (cases "filter (\<lambda>w. w \<noteq> []) ws") auto
  then have "1 \<le> length r0" using assms by simp
  then obtain q r where "r0 = q # r" by (cases r0) auto
  with f0 have f: "filter (\<lambda>w. w \<noteq> []) ws = p # q # r" by simp
  then obtain u vs where 1: "ws = u @ p # vs" and p: "p \<noteq> []"
    and 2: "q # r = filter (\<lambda>w. w \<noteq> []) vs"
    by (auto simp: filter_eq_Cons_iff)
  from 2 [symmetric] obtain v z where 3: "vs = v @ q # z" and q: "q \<noteq> []"
    by (auto simp: filter_eq_Cons_iff)
  obtain x w1 where "p = x # w1" using p by (cases p) auto
  moreover obtain y w2 where "q = y # w2" using q by (cases q) auto
  ultimately show ?thesis using 1 3 by blast
qed

lemma page_window_passes:
  assumes ns: "\<forall>w \<in> set ws. \<forall>c \<in> set w. \<not> isSpace c"
    and n: "50 \<le> length (filter (\<lambda>w. w \<noteq> []) ws)"
  shows "50 < length (trim (join '' '' ws))"
proof -
  from n have "2 \<le> length (filter (\<lambda>w. w \<noteq> []) ws)" by simp
  then obtain u x w1 v y w2 z where ws: "ws = u @ (x # w1) # v @ (y # w2) # z"
    using two_nonempty_words by blast
  have x: "\<not> isSpace x" and y: "\<not> isSpace y" using ns ws by auto
  obtain a m d where j: "join '' '' ws = a @ x # m @ y # d" and sp: "CHR '' '' \<in> set m"
    unfolding ws using join_two_words by blast
  have "isSpace CHR '' ''" by (simp add: isSpace_def)
  then have "length (filter (\<lambda>c. \<not> isSpace c) (join '' '' ws)) < length (trim (join '' '' ws))"
    unfolding j using x y sp by (intro trim_inner_space)
  moreover have "length (filter (\<lambda>w. w \<noteq> []) ws) \<le> sum_list (map length ws)"
    by (rule nonempty_le_sum)
  moreover have "length (filter (\<lambda>c. \<not> isSpace c) (join '' '' ws)) = sum_list (map length ws)"
    using ns by (rule nonspace_join)
  ultimately show ?thesis using n by linarith
qed

lemma short_page_one_window:
  assumes "50 \<le> wordCountOf content" and W: "length (split_ws content) \<le> 200"
  shows "chunkText content 1000 200 = Some [join '' '' (split_ws content)]"
proof -
  have ns: "\<forall>w \<in> set (split_ws content). \<forall>c \<in> set w. \<not> isSpace c"
    using split_ws_nonspace by blast
  have pass: "50 < length (trim (join '' '' (split_ws content)))"
    using ns assms(1) unfolding wordCountOf_def by (rule page_window_passes)
  have pos: "0 < length (split_ws content)" using split_ws_not_Nil [of content] by simp
  have win: "slice (split_ws content) 0 (0 + 1000) = split_ws content"
    using W by (simp add: slice_def Let_def)
  show ?thesis
    unfolding chunkText_def using W pos win pass
    by (subst chunk_loop.simps) simp
qed

lemma long_page_windows:
  assumes W: "200 < length (split_ws content)"
  shows "\<exists>chunks. chunkText content 1000 200 = Some chunks
         \<and> int (length chunks) = \<lceil>(real (length (split_ws content)) - 200) / (1000 - 200)\<rceil>"
proof -
  have ns: "\<forall>w \<in> set (split_ws content). \<forall>c \<in> set w. \<not> isSpace c"
    using split_ws_nonspace by blast
  from chunk_loop_count [OF ns empties_split_ws, of 0 "[]"] W
  obtain r where r1: "chunk_loop (split_ws content) 1000 200 0 [] = Some ([] @ r)"
    and r2: "int (length r) = (int (length (split_ws content)) - 0 - 200 + 799) div 800"
    by auto
  have "(real (length (split_ws content)) - 200) / (1000 - 200)
      = real_of_int (int (length (split_ws content)) - 200) / 800"
    by simp
  then have c: "\<lceil>(real (length (split_ws content)) - 200) / (1000 - 200)\<rceil>
      = (int (length (split_ws content)) - 200 + 799) div 800"
    by (simp only: ceiling_div_800)
  have r2': "int (length r) = (int (length (split_ws content)) - 200 + 799) div 800"
    using r2 by (simp only: diff_zero)
  have r1': "chunkText content 1000 200 = Some r"
    using r1 by (simp only: chunkText_def append_Nil)
  show ?thesis unfolding c using r1' r2' by blast
qed

lemma split_ws_spaced:
  "split_ws (concat (replicate (Suc n) '' ab'')) = [] # replicate (Suc n) ''ab''"
proof (induction n)
  case 0
  then show ?case by (simp add: isSpace_def startsWithSpace_def)
next
  case (Suc n)
  have "concat (replicate (Suc (Suc n)) '' ab'')
      = CHR '' '' # CHR ''a'' # CHR ''b'' # concat (replicate (Suc n) '' ab'')"
    by simp
  then show ?case using Suc by (simp add: isSpace_def startsWithSpace_def)
qed

lemma split_ws_pageText: "split_ws (pageText n) = replicate (Suc n) ''ab''"
proof (cases n)
  case 0
  then show ?thesis by (simp add: pageText_def isSpace_def)
next
  case (Suc k)
  have "pageText (Suc k) = CHR ''a'' # CHR ''b'' # concat (replicate (Suc k) '' ab'')"
    by (simp add: pageText_def)
  then show ?thesis using Suc split_ws_spaced [of k] by (simp add: isSpace_def)
qed

lemma join_replicate_ab: "join '' '' (replicate (Suc n) ''ab'') = pageText n"
proof (induction n)
  case 0
  then show ?case by (simp add: pageText_def)
next
  case (Suc n)
  have "join '' '' (replicate (Suc (Suc n)) ''ab'') = ''ab'' @ '' '' @ join '' '' (replicate (Suc n) ''ab'')"
    by simp
  also have "\<dots> = ''ab'' @ '' '' @ pageText n" by (simp only: Suc)
  also have "\<dots> = pageText (Suc n)" by (simp add: pageText_def)
  finally show ?case .
qed

lemma pageOfWords_facts:
  "pageIsChunked (pageOfWords n) = (49 \<le> n)"
  "sc_wordCount (pageOfWords n) = wordCountOf (sc_content (pageOfWords n))"
  "length (split_ws (sc_content (pageOfWords n))) = Suc n"
  "join '' '' (split_ws (sc_content (pageOfWords n))) = sc_content (pageOfWords n)"
proof -
  show "pageIsChunked (pageOfWords n) = (49 \<le> n)"
    by (auto simp: pageIsChunked_def pageOfWords_def pageText_def)
  show "sc_wordCount (pageOfWords n) = wordCountOf (sc_content (pageOfWords n))"
    by (simp add: pageOfWords_def wordCountOf_def split_ws_pageText)
  show "length (split_ws (sc_content (pageOfWords n))) = Suc n"
    by (simp add: pageOfWords_def split_ws_pageText)
  show "join '' '' (split_ws (sc_content (pageOfWords n))) = sc_content (pageOfWords n)"
    by (simp only: pageOfWords_def split_ws_pageText join_replicate_ab ScrapedContent.simps)
qed


text \<open>
  C7 as stated fails on pages that are chunked. A page of 200 words yields one window:
  the formula gives \<open>ceil(0 / 800) = 0\<close>, and the window has exactly 200 words, so it is
  not a remainder shorter than the overlap. A page of 60 words yields one window as well,
  where the formula by itself gives 0.
\<close>

theorem chunk_count_counterexample:
  "pageIsChunked (pageOfWords 199)
   \<and> sc_wordCount (pageOfWords 199) = wordCountOf (sc_content (pageOfWords 199))
   \<and> length (split_ws (sc_content (pageOfWords 199))) = 200
   \<and> \<lceil>(real 200 - 200) / (1000 - 200)\<rceil> = (0::int)
   \<and> chunkText (sc_content (pageOfWords 199)) 1000 200 = Some [sc_content (pageOfWords 199)]
   \<and> pageIsChunked (pageOfWords 59)
   \<and> sc_wordCount (pageOfWords 59) = wordCountOf (sc_content (pageOfWords 59))
   \<and> length (split_ws (sc_content (pageOfWords 59))) = 60
   \<and> \<lceil>(real 60 - 200) / (1000 - 200)\<rceil> = (0::int)
   \<and> chunkText (sc_content (pageOfWords 59)) 1000 200 = Some [sc_content (pageOfWords 59)]"
proof -
  have w: "50 \<le> wordCountOf (sc_content (pageOfWords n))" if "49 \<le> n" for n
    using that pageOfWords_facts(2) [of n, symmetric] by (simp add: pageOfWords_def)
  have c: "chunkText (sc_content (pageOfWords n)) 1000 200 = Some [sc_content (pageOfWords n)]"
    if "49 \<le> n" "n \<le> 199" for n
    using short_page_one_window [of "sc_content (pageOfWords n)"] w [OF that(1)] that(2)
    by (simp add: pageOfWords_facts)
  have z: "\<lceil>(real 60 - 200) / (1000 - 200)\<rceil> = (0::int)"
    by (simp add: ceiling_eq_iff)
  show ?thesis
    using c [of 199] c [of 59] z by (simp add: pageOfWords_facts)
qed

text \<open>
  C7, amended. For every page that is chunked (its content is not empty and its word
  count, as the scraper computes it, is at least 50), with window size 1000 and overlap
  200 and \<open>W\<close> the number of pieces of \<open>text.split(/\s+/)\<close>: a page with
  \<open>W > 200\<close> yields exactly \<open>ceil((W - 200) / (1000 - 200))\<close> windows, and a page
  with \<open>W \<le> 200\<close> yields exactly one window, which holds the whole page. In both
  cases the function returns.
\<close>

theorem chunk_count:
  assumes "pageIsChunked page"
    and "sc_wordCount page = wordCountOf (sc_content page)"
  shows "(200 < length (split_ws (sc_content page)) \<longrightarrow>
      (\<exists>chunks. chunkText (sc_content page) 1000 200 = Some chunks
         \<and> int (length chunks)
             = \<lceil>(real (length (split_ws (sc_content page))) - 200) / (1000 - 200)\<rceil>))
   \<and> (length (split_ws (sc_content page)) \<le> 200 \<longrightarrow>
      chunkText (sc_content page) 1000 200 = Some [join '' '' (split_ws (sc_content page))])"
proof (intro conjI impI)
  assume "200 < length (split_ws (sc_content page))"
  then show "\<exists>chunks. chunkText (sc_content page) 1000 200 = Some chunks
         \<and> int (length chunks)
             = \<lceil>(real (length (split_ws (sc_content page))) - 200) / (1000 - 200)\<rceil>"
    by (rule long_page_windows)
next
  assume W: "length (split_ws (sc_content page)) \<le> 200"
  have "50 \<le> wordCountOf (sc_content page)"
    using assms by (simp add: pageIsChunked_def)
  then show "chunkText (sc_content page) 1000 200 = Some [join '' '' (split_ws (sc_content page))]"
    using W by (rule short_page_one_window)
qed

theorem chunk_count_witness:
  "pageIsChunked (pageOfWords 1099)
   \<and> sc_wordCount (pageOfWords 1099) = wordCountOf (sc_content (pageOfWords 1099))
   \<and> 200 < length (split_ws (sc_content (pageOfWords 1099)))
   \<and> (\<exists>chunks. chunkText (sc_content (pageOfWords 1099)) 1000 200 = Some chunks
         \<and> length chunks = 2)
   \<and> pageIsChunked (pageOfWords 199)
   \<and> sc_wordCount (pageOfWords 199) = wordCountOf (sc_content (pageOfWords 199))
   \<and> length (split_ws (sc_content (pageOfWords 199))) \<le> 200
   \<and> chunkText (sc_content (pageOfWords 199)) 1000 200 = Some [sc_content (pageOfWords 199)]"
proof -
  have g1: "pageIsChunked (pageOfWords 1099)" and g2: "pageIsChunked (pageOfWords 199)"
    by (simp_all add: pageOfWords_facts)
  have c1: "sc_wordCount (pageOfWords 1099) = wordCountOf (sc_content (pageOfWords 1099))"
    and c2: "sc_wordCount (pageOfWords 199) = wordCountOf (sc_content (pageOfWords 199))"
    by (rule pageOfWords_facts(2))+
  have l1: "length (split_ws (sc_content (pageOfWords 1099))) = 1100"
    and l2: "length (split_ws (sc_content (pageOfWords 199))) = 200"
    by (simp_all add: pageOfWords_facts)
  have j: "join '' '' (split_ws (sc_content (pageOfWords 199))) = sc_content (pageOfWords 199)"
    by (rule pageOfWords_facts(4))
  from chunk_count [OF g1 c1] l1
  have a: "\<exists>chunks. chunkText (sc_content (pageOfWords 1099)) 1000 200 = Some chunks
         \<and> length chunks = 2"
    by simp
  from chunk_count [OF g2 c2] l2 j
  have b: "chunkText (sc_content (pageOfWords 199)) 1000 200 = Some [sc_content (pageOfWords 199)]"
    by simp
  show ?thesis using g1 g2 c1 c2 l1 l2 a b by simp
qed

end
